theory Spec2Isabelle
  imports Complex_Main "HOL-Library.Word" "HOL-Library.AList" "HOL-Library.Log_Nat"
begin

section \<open>The storefront's mock service layer (script.js, object mockApi)\<close>

text \<open>
  The service layer of the storefront keeps a cart and a session in the browser's
  localStorage and computes the cart's prices. Every operation of \<open>mockApi\<close> is a
  function from the storage before the call to the outcome of the call and the storage after
  it. An outcome is \<open>Inl e\<close> when the call throws \<open>e\<close> and \<open>Inr r\<close> when it
  returns \<open>r\<close>. The \<open>await wait(...)\<close> that opens each operation only delays it; one
  call is one step, so calls do not interleave.

  What stands for the JavaScript values:
  \<^item> a string is the list of its UTF-16 code units;
  \<^item> a number is a double, given by its rational value. Every sum and product is rounded
    to the nearest double, to the even significand at a tie, as IEEE 754 has it. A result
    whose magnitude reaches \<open>2^1024\<close>, which is Infinity in JavaScript, is left out;
  \<^item> a quantity is a whole number, as the data model has it. Beyond \<open>2^53\<close> not
    every whole number is a double; a stored mapping is taken with the whole numbers it is
    given, and what the operations compute from them is rounded as above;
  \<^item> an object read from JSON is the association list of its own properties. An
    assignment to the key \<open>__proto__\<close> of an object without that property does not
    create it. JavaScript lists the keys that are array indices first and in ascending
    order; here every key is listed where it was inserted, and no statement depends on the
    order of the entries;
  \<^item> a text held in storage is either JSON for a value of the shape its key is read at
    (\<open>Json v\<close>, whatever its white space), or a text that \<open>JSON.parse\<close> rejects
    (\<open>Malformed s\<close>, with the characters \<open>s\<close>). JSON of another shape, such as a
    number or an array under the cart key, is left out. \<open>JSON.stringify\<close> and
    \<open>JSON.parse\<close> are the browser's; writing a value and parsing it again gives the
    value back;
  \<^item> \<open>Date.now()\<close> is an argument of the operations that read the clock, in whole
    milliseconds;
  \<^item> \<open>localStorage.setItem\<close> always has room.
\<close>

subsection \<open>Strings\<close>

type_synonym ustring = "16 word list"

definition js :: "string \<Rightarrow> ustring" where
  "js s = map of_char s"

subsection \<open>Numbers\<close>

text \<open>
  The nearest whole number, the even one at a tie, and the nearest double: the magnitude is
  written as a multiple of \<open>2^-1074\<close>, the smallest positive double, and rounded to a
  multiple of the spacing that leaves 53 significant bits.
\<close>

definition round_half_even :: "rat \<Rightarrow> int" where
  "round_half_even z =
    (let f = \<lfloor>z\<rfloor>; r = z - of_int f
     in if r < 1 / 2 then f else if 1 / 2 < r then f + 1 else if even f then f else f + 1)"

definition fl :: "rat \<Rightarrow> rat" where
  "fl x =
    (let n = \<bar>x\<bar> * 2 ^ 1074;
         s = 2 ^ (floorlog 2 (nat \<lfloor>n\<rfloor>) - 53)
     in sgn x * (of_int (round_half_even (n / s)) * s / 2 ^ 1074))"

text \<open>The operators \<open>+\<close> and \<open>*\<close> of JavaScript, on numbers and on whole quantities.\<close>

definition plus_num :: "rat \<Rightarrow> rat \<Rightarrow> rat" where
  "plus_num a b = fl (a + b)"

definition times_num :: "rat \<Rightarrow> rat \<Rightarrow> rat" where
  "times_num a b = fl (a * b)"

definition plus_quantity :: "int \<Rightarrow> int \<Rightarrow> int" where
  "plus_quantity a b = \<lfloor>plus_num (of_int a) (of_int b)\<rfloor>"

subsection \<open>Mock data\<close>

text \<open>The field \<open>id\<close> of a product is \<open>ident\<close>; the placeholder of the cart read has no \<open>img\<close>.\<close>

record product =
  ident :: ustring
  name :: ustring
  price :: rat
  img :: "ustring option"

definition MOCK_PRODUCTS :: "product list" where
  "MOCK_PRODUCTS =
    [\<lparr>ident = js ''p1'', name = js ''Classic Hoodie'', price = 45, img = Some (js ''images/product1.jpg'')\<rparr>,
     \<lparr>ident = js ''p2'', name = js ''Stylish Jacket'', price = 70, img = Some (js ''images/product2.jpg'')\<rparr>,
     \<lparr>ident = js ''p3'', name = js ''Sporty Sneakers'', price = 60, img = Some (js ''images/product3.jpg'')\<rparr>,
     \<lparr>ident = js ''p4'', name = js ''Summer T-Shirt'', price = 30, img = Some (js ''images/product4.jpg'')\<rparr>]"

subsection \<open>Errors, JSON texts and localStorage\<close>

datatype error = Error ustring | SyntaxError | InvalidCharacterError

definition NotFound :: error where
  "NotFound = Error (js ''Product not found'')"

definition EmptyCart :: error where
  "EmptyCart = Error (js ''Cart is empty'')"

datatype 'a jtext = Json 'a | Malformed ustring

fun JSON_parse :: "'a jtext \<Rightarrow> error + 'a" where
  "JSON_parse (Json v) = Inr v"
| "JSON_parse (Malformed s) = Inl SyntaxError"

definition JSON_stringify :: "'a \<Rightarrow> 'a jtext" where
  "JSON_stringify v = Json v"

text \<open>A string is falsy exactly when it is empty, and the empty text is not JSON.\<close>

definition truthy_text :: "'a jtext \<Rightarrow> bool" where
  "truthy_text raw = (raw \<noteq> Malformed [])"

type_synonym cart = "(ustring \<times> int) list"

record user =
  email :: ustring

record localStorage =
  fh_cart :: "cart jtext option"
  fh_token :: "ustring option"
  fh_user :: "user jtext option"

subsection \<open>Reading and writing the cart\<close>

text \<open>The body of the \<open>try\<close> block of \<open>_readCart\<close>, and \<open>_readCart\<close> with its \<open>catch\<close>.\<close>

definition readCart_try :: "localStorage \<Rightarrow> error + cart" where
  "readCart_try s =
    (case fh_cart s of
       None \<Rightarrow> Inr []
     | Some raw \<Rightarrow> if truthy_text raw then JSON_parse raw else Inr [])"

definition readCart :: "localStorage \<Rightarrow> error + cart" where
  "readCart s = (case readCart_try s of Inl e \<Rightarrow> Inr [] | Inr c \<Rightarrow> Inr c)"

definition writeCart :: "cart \<Rightarrow> localStorage \<Rightarrow> localStorage" where
  "writeCart c s = s\<lparr>fh_cart := Some (JSON_stringify c)\<rparr>"

subsection \<open>Pricing\<close>

text \<open>
  \<open>x.toFixed(2)\<close> writes the sign and then the magnitude rounded to the nearest
  hundredth, the larger one at a tie; \<open>hundredths\<close> is what it writes, counted in
  hundredths. From \<open>10^21\<close> on it writes the number as it is. The unary plus of
  \<open>+(x).toFixed(2)\<close> reads what is written as a double.
\<close>

definition hundredths :: "rat \<Rightarrow> int" where
  "hundredths x = \<lfloor>\<bar>x\<bar> * 100 + 1 / 2\<rfloor>"

definition toFixed2 :: "rat \<Rightarrow> rat" where
  "toFixed2 x =
    (if 10 ^ 21 \<le> \<bar>x\<bar> then x
     else fl (sgn x * (of_int (hundredths x) / 100)))"

record item = product +
  qty :: int
  total :: rat

record summary =
  items :: "item list"
  subtotal :: rat
  shipping :: rat
  tax :: rat
  total :: rat

definition placeholder :: "ustring \<Rightarrow> product" where
  "placeholder pid = \<lparr>ident = pid, name = pid, price = 0, img = None\<rparr>"

text \<open>\<open>find(...) || { id: pid, name: pid, price: 0 }\<close>: a product found is an object, so truthy.\<close>

definition line_item :: "ustring \<times> int \<Rightarrow> item" where
  "line_item e =
    (case e of (pid, q) \<Rightarrow>
      (let p = (case find (\<lambda>x. ident x = pid) MOCK_PRODUCTS of
                  Some x \<Rightarrow> x | None \<Rightarrow> placeholder pid)
       in product.extend p \<lparr>qty = q, total = toFixed2 (times_num (price p) (of_int q))\<rparr>))"

definition getCart :: "localStorage \<Rightarrow> (error + summary) \<times> localStorage" where
  "getCart s =
    (case readCart s of
       Inl e \<Rightarrow> (Inl e, s)
     | Inr c \<Rightarrow>
        (let its = map line_item c;
             sub = foldl (\<lambda>s it. plus_num s (item.total it)) 0 its;
             ship = (if 0 < length its then 5 else 0);
             tx = toFixed2 (times_num sub (fl (7 / 100)));
             tot = toFixed2 (plus_num (plus_num sub ship) tx)
         in (Inr \<lparr>items = its, subtotal = toFixed2 sub, shipping = ship, tax = tx, total = tot\<rparr>, s)))"

subsection \<open>Changing the cart\<close>

record ok =
  success :: bool

record cart_reply = ok +
  cart :: cart

text \<open>\<open>cart[productId] || 0\<close>: a missing property is undefined, and undefined and 0 are falsy.\<close>

definition or_zero :: "int option \<Rightarrow> int" where
  "or_zero v = (case v of None \<Rightarrow> 0 | Some n \<Rightarrow> if n = 0 then 0 else n)"

text \<open>
  \<open>cart[productId] = v\<close>: the property is set where the object has it and created where
  it has not, except the key \<open>__proto__\<close>, whose setter in \<open>Object.prototype\<close>
  ignores a number.
\<close>

definition assign :: "ustring \<Rightarrow> int \<Rightarrow> cart \<Rightarrow> cart" where
  "assign k v c =
    (if k = js ''__proto__'' \<and> map_of c k = None then c else AList.update k v c)"

definition addToCart ::
  "ustring \<Rightarrow> int option \<Rightarrow> localStorage \<Rightarrow> (error + cart_reply) \<times> localStorage" where
  "addToCart productId qty_arg s =
    (let q = (case qty_arg of None \<Rightarrow> 1 | Some n \<Rightarrow> n) in
     case find (\<lambda>p. ident p = productId) MOCK_PRODUCTS of
       None \<Rightarrow> (Inl NotFound, s)
     | Some p \<Rightarrow>
        (case readCart s of
           Inl e \<Rightarrow> (Inl e, s)
         | Inr c \<Rightarrow>
            (let c' = assign productId (plus_quantity (or_zero (map_of c productId)) q) c
             in (Inr \<lparr>success = True, cart = c'\<rparr>, writeCart c' s))))"

definition setCartQuantity ::
  "ustring \<Rightarrow> int \<Rightarrow> localStorage \<Rightarrow> (error + cart_reply) \<times> localStorage" where
  "setCartQuantity productId q s =
    (case readCart s of
       Inl e \<Rightarrow> (Inl e, s)
     | Inr c \<Rightarrow>
        (let c' = (if q \<le> 0 then AList.delete productId c else assign productId q c)
         in (Inr \<lparr>success = True, cart = c'\<rparr>, writeCart c' s)))"

definition removeFromCart ::
  "ustring \<Rightarrow> localStorage \<Rightarrow> (error + cart_reply) \<times> localStorage" where
  "removeFromCart productId s =
    (case readCart s of
       Inl e \<Rightarrow> (Inl e, s)
     | Inr c \<Rightarrow>
        (let c' = AList.delete productId c
         in (Inr \<lparr>success = True, cart = c'\<rparr>, writeCart c' s)))"

subsection \<open>Checkout\<close>

text \<open>The decimal digits of a whole number, as \<open>'ORD-' + Date.now()\<close> writes them.\<close>

fun decimal :: "nat \<Rightarrow> ustring" where
  "decimal n = (if n < 10 then [of_nat (48 + n)] else decimal (n div 10) @ [of_nat (48 + n mod 10)])"

declare decimal.simps [simp del]

record order_reply = ok +
  orderId :: ustring
  message :: ustring

definition checkout ::
  "'o \<Rightarrow> nat \<Rightarrow> localStorage \<Rightarrow> (error + order_reply) \<times> localStorage" where
  "checkout orderData now s =
    (case readCart s of
       Inl e \<Rightarrow> (Inl e, s)
     | Inr c \<Rightarrow>
        if length (map fst c) = 0 then (Inl EmptyCart, s)
        else (Inr \<lparr>success = True, orderId = js ''ORD-'' @ decimal now,
                    message = js ''Payment successful (fake).''\<rparr>,
              writeCart [] s))"

subsection \<open>The session\<close>

text \<open>
  \<open>btoa\<close> is the browser's: it throws InvalidCharacterError when a code unit of its
  argument is above 255 and otherwise writes the bytes in base 64.
\<close>

definition b64 :: "nat \<Rightarrow> 16 word" where
  "b64 i = js ''ABCDEFGHIJKLMNOPQRSTUVWXYZabcdefghijklmnopqrstuvwxyz0123456789+/'' ! i"

fun b64_encode :: "nat list \<Rightarrow> ustring" where
  "b64_encode (x # y # z # rest) =
     [b64 (x div 4), b64 (x mod 4 * 16 + y div 16), b64 (y mod 16 * 4 + z div 64), b64 (z mod 64)]
     @ b64_encode rest"
| "b64_encode [x, y] = [b64 (x div 4), b64 (x mod 4 * 16 + y div 16), b64 (y mod 16 * 4), 61]"
| "b64_encode [x] = [b64 (x div 4), b64 (x mod 4 * 16), 61, 61]"
| "b64_encode [] = []"

definition btoa :: "ustring \<Rightarrow> error + ustring" where
  "btoa str =
    (if list_ex (\<lambda>u. 255 < u) str then Inl InvalidCharacterError
     else Inr (b64_encode (map unat str)))"

record login_reply = ok +
  token :: ustring
  user :: user

definition login ::
  "ustring \<Rightarrow> ustring \<Rightarrow> nat \<Rightarrow> localStorage \<Rightarrow> (error + login_reply) \<times> localStorage" where
  "login mail password now s =
    (case btoa (mail @ js '':'' @ decimal now) of
       Inl e \<Rightarrow> (Inl e, s)
     | Inr b \<Rightarrow>
        (let tok = js ''fake-token-'' @ b;
             s1 = s\<lparr>fh_token := Some tok\<rparr>;
             s2 = s1\<lparr>fh_user := Some (JSON_stringify \<lparr>email = mail\<rparr>)\<rparr>
         in (Inr \<lparr>success = True, token = tok, user = \<lparr>email = mail\<rparr>\<rparr>, s2)))"

definition logout :: "localStorage \<Rightarrow> (error + ok) \<times> localStorage" where
  "logout s = (Inr \<lparr>success = True\<rparr>, s\<lparr>fh_token := None, fh_user := None\<rparr>)"

text \<open>
  \<open>JSON.parse(localStorage.getItem('fh_user')) || null\<close>: a missing key gives null, which
  JSON.parse reads as the text \<open>null\<close>; a user record is an object, so truthy. \<open>None\<close>
  is JavaScript's null.
\<close>

definition getCurrentUser_try :: "localStorage \<Rightarrow> error + user option" where
  "getCurrentUser_try s =
    (case fh_user s of
       None \<Rightarrow> Inr None
     | Some raw \<Rightarrow> (case JSON_parse raw of Inl e \<Rightarrow> Inl e | Inr u \<Rightarrow> Inr (Some u)))"

definition getCurrentUser :: "localStorage \<Rightarrow> error + user option" where
  "getCurrentUser s = (case getCurrentUser_try s of Inl e \<Rightarrow> Inr None | Inr v \<Rightarrow> Inr v)"

subsection \<open>The invariant of the data model\<close>

text \<open>Every quantity the mapping holds is positive.\<close>

definition positive_quantities :: "cart \<Rightarrow> bool" where
  "positive_quantities c = list_all (\<lambda>e. 0 < snd e) c"

section \<open>Facts about the doubles\<close>

lemma round_half_even_of_int: "round_half_even (of_int k) = k"
  by (simp add: round_half_even_def)

lemma round_half_even_error: "\<bar>of_int (round_half_even z) - z\<bar> \<le> 1 / 2"
proof -
  have "of_int \<lfloor>z\<rfloor> \<le> z" and "z < of_int \<lfloor>z\<rfloor> + 1"
    by linarith+
  then show ?thesis
    by (auto simp: round_half_even_def Let_def abs_le_iff)
qed

lemma floorlog_unique:
  assumes "2 ^ (w - 1) \<le> v" and "v < 2 ^ w" and "0 < w"
  shows "floorlog 2 v = w"
proof (rule antisym)
  show "floorlog 2 v \<le> w" using assms(2) by (intro floorlog_leI) simp_all
  show "w \<le> floorlog 2 v" using assms(1) by (intro floorlog_geI) simp_all
qed

lemma fl_zero: "fl 0 = 0"
  by (simp add: fl_def)

text \<open>A number whose magnitude, divided by \<open>2 ^ p\<close>, has 53 bits.\<close>

lemma fl_by_scale:
  fixes x :: rat and t :: nat
  assumes "2 ^ (52 + t) \<le> \<bar>x\<bar> * 2 ^ 1074" and "\<bar>x\<bar> * 2 ^ 1074 < 2 ^ (53 + t)"
  shows "fl x = sgn x * (of_int (round_half_even (\<bar>x\<bar> * 2 ^ 1074 / 2 ^ t)) * 2 ^ t / 2 ^ 1074)"
proof -
  define n where "n = \<bar>x\<bar> * 2 ^ 1074"
  have "(2 :: rat) ^ (52 + t) = of_int (2 ^ (52 + t))" by simp
  with assms(1) have "of_int (2 ^ (52 + t)) \<le> n" by (simp only: n_def)
  then have lo: "2 ^ (52 + t) \<le> \<lfloor>n\<rfloor>" by (simp only: le_floor_iff)
  have "(2 :: rat) ^ (53 + t) = of_int (2 ^ (53 + t))" by simp
  with assms(2) have "n < of_int (2 ^ (53 + t))" by (simp only: n_def)
  then have hi: "\<lfloor>n\<rfloor> < 2 ^ (53 + t)" by (simp only: floor_less_iff)
  have pos: "0 \<le> \<lfloor>n\<rfloor>" using lo by (smt (verit) zero_le_power)
  have "(2 :: nat) ^ (53 + t - 1) \<le> nat \<lfloor>n\<rfloor>"
    using lo pos by (simp add: le_nat_iff)
  moreover have "nat \<lfloor>n\<rfloor> < 2 ^ (53 + t)"
    using hi pos by (simp add: nat_less_iff)
  ultimately have "floorlog 2 (nat \<lfloor>n\<rfloor>) = 53 + t"
    by (intro floorlog_unique) simp_all
  then show ?thesis
    by (simp add: fl_def Let_def n_def)
qed

lemma fl_fraction:
  fixes x :: rat and p :: nat
  assumes "p \<le> 1074" and "2 ^ 52 \<le> \<bar>x\<bar> * 2 ^ p" and "\<bar>x\<bar> * 2 ^ p < 2 ^ 53"
  shows "fl x = sgn x * (of_int (round_half_even (\<bar>x\<bar> * 2 ^ p)) / 2 ^ p)"
proof -
  define t where "t = 1074 - p"
  define K :: rat where "K = 2 ^ 1074"
  define P :: rat where "P = 2 ^ p"
  define T :: rat where "T = 2 ^ t"
  have "p + t = 1074" using assms(1) by (simp add: t_def)
  then have "(2 :: rat) ^ 1074 = 2 ^ (p + t)" by (simp only:)
  then have e: "K = P * T" by (simp only: K_def P_def T_def power_add)
  have P: "0 < P" and T: "0 < T" by (simp_all add: P_def T_def)
  have "2 ^ 52 * T \<le> (\<bar>x\<bar> * P) * T"
    using assms(2) T unfolding P_def by (intro mult_right_mono) simp_all
  then have a: "2 ^ (52 + t) \<le> \<bar>x\<bar> * 2 ^ 1074"
    unfolding power_add K_def [symmetric] T_def [symmetric] e by (simp only: mult.assoc)
  have "(\<bar>x\<bar> * P) * T < 2 ^ 53 * T"
    using assms(3) T unfolding P_def by (intro mult_strict_right_mono) simp_all
  then have b: "\<bar>x\<bar> * 2 ^ 1074 < 2 ^ (53 + t)"
    unfolding power_add K_def [symmetric] T_def [symmetric] e by (simp only: mult.assoc)
  have "fl x = sgn x * (of_int (round_half_even (\<bar>x\<bar> * 2 ^ 1074 / 2 ^ t)) * 2 ^ t / 2 ^ 1074)"
    using a b by (rule fl_by_scale)
  then have "fl x = sgn x * (of_int (round_half_even (\<bar>x\<bar> * K / T)) * T / K)"
    by (simp only: K_def T_def)
  also have "\<bar>x\<bar> * K / T = \<bar>x\<bar> * P"
    using T by (simp add: e)
  also have "of_int (round_half_even (\<bar>x\<bar> * P)) * T / K = of_int (round_half_even (\<bar>x\<bar> * P)) / P"
    using T P by (simp add: e)
  finally show ?thesis by (simp only: P_def)
qed

lemma fl_whole:
  fixes x :: rat and p :: nat
  assumes "2 ^ 52 \<le> \<bar>x\<bar> / 2 ^ p" and "\<bar>x\<bar> / 2 ^ p < 2 ^ 53"
  shows "fl x = sgn x * (of_int (round_half_even (\<bar>x\<bar> / 2 ^ p)) * 2 ^ p)"
proof -
  define t where "t = 1074 + p"
  define K :: rat where "K = 2 ^ 1074"
  define P :: rat where "P = 2 ^ p"
  define T :: rat where "T = 2 ^ t"
  have e: "T = K * P" by (simp only: K_def P_def T_def t_def power_add)
  have P: "0 < P" and K: "0 < K" by (simp_all add: P_def K_def)
  have "2 ^ 52 * (K * P) \<le> (\<bar>x\<bar> / P) * (K * P)"
    using assms(1) P K unfolding P_def by (intro mult_right_mono) simp_all
  also have "(\<bar>x\<bar> / P) * (K * P) = \<bar>x\<bar> * K" using P by simp
  finally have a: "2 ^ (52 + t) \<le> \<bar>x\<bar> * 2 ^ 1074"
    unfolding power_add [of _ 52 t] T_def [symmetric] K_def [symmetric] e .
  have "(\<bar>x\<bar> / P) * (K * P) < 2 ^ 53 * (K * P)"
    using assms(2) P K unfolding P_def by (intro mult_strict_right_mono) simp_all
  moreover have "(\<bar>x\<bar> / P) * (K * P) = \<bar>x\<bar> * K" using P by simp
  ultimately have "\<bar>x\<bar> * K < 2 ^ 53 * (K * P)" by (simp only:)
  then have b: "\<bar>x\<bar> * 2 ^ 1074 < 2 ^ (53 + t)"
    unfolding power_add [of _ 53 t] T_def [symmetric] K_def [symmetric] e .
  have "fl x = sgn x * (of_int (round_half_even (\<bar>x\<bar> * 2 ^ 1074 / 2 ^ t)) * 2 ^ t / 2 ^ 1074)"
    using a b by (rule fl_by_scale)
  then have "fl x = sgn x * (of_int (round_half_even (\<bar>x\<bar> * K / T)) * T / K)"
    by (simp only: K_def T_def)
  also have "\<bar>x\<bar> * K / T = \<bar>x\<bar> / P"
    using K by (simp add: e)
  also have "of_int (round_half_even (\<bar>x\<bar> / P)) * T / K = of_int (round_half_even (\<bar>x\<bar> / P)) * P"
    using K by (simp add: e)
  finally show ?thesis by (simp only: P_def)
qed

lemma fl_error:
  fixes x :: rat
  assumes "0 < x" and "2 ^ 52 \<le> x * 2 ^ 1074"
  shows "\<bar>fl x - x\<bar> \<le> x / 2 ^ 53"
proof -
  define K :: rat where "K = 2 ^ 1074"
  define n where "n = x * K"
  define v where "v = nat \<lfloor>n\<rfloor>"
  define w where "w = floorlog 2 v"
  have K: "0 < K" by (simp add: K_def)
  have n52: "2 ^ 52 \<le> n" using assms(2) by (simp only: n_def K_def)
  have "(2 :: rat) ^ 52 = of_int (2 ^ 52)" by simp
  with n52 have "of_int (2 ^ 52) \<le> n" by (simp only:)
  then have f52: "2 ^ 52 \<le> \<lfloor>n\<rfloor>" by (simp only: le_floor_iff)
  then have fpos: "0 \<le> \<lfloor>n\<rfloor>" by (smt (verit) zero_le_power)
  have v52: "2 ^ 52 \<le> v" using f52 fpos by (simp add: v_def le_nat_iff)
  then have vpos: "0 < v" by (smt (verit) zero_less_power less_le_trans zero_less_numeral)
  have "53 \<le> w" unfolding w_def using v52 by (intro floorlog_geI) simp_all
  then obtain t where t: "w = 53 + t" using le_Suc_ex by blast
  from floorlog_bounds [OF vpos, of 2] have lo: "2 ^ (w - 1) \<le> v" and hi: "v < 2 ^ w"
    by (simp_all add: w_def)
  have vn: "of_nat v = (of_int \<lfloor>n\<rfloor> :: rat)" using fpos by (simp add: v_def)
  define T :: rat where "T = 2 ^ t"
  have T: "0 < T" by (simp add: T_def)
  have "2 ^ (52 + t) \<le> v" using lo unfolding t by simp
  then have "of_nat (2 ^ (52 + t)) \<le> (of_nat v :: rat)" by (simp only: of_nat_le_iff)
  then have "2 ^ 52 * T \<le> (of_nat v :: rat)" by (simp add: T_def power_add)
  also have "\<dots> \<le> n" by (simp add: vn)
  finally have a: "2 ^ 52 * T \<le> n" .
  have "v + 1 \<le> 2 ^ (53 + t)" using hi unfolding t by simp
  then have "(of_nat (v + 1) :: rat) \<le> of_nat (2 ^ (53 + t))" by (simp only: of_nat_le_iff)
  then have "of_nat v + 1 \<le> 2 ^ 53 * T" by (simp add: T_def power_add)
  moreover have "n < of_nat v + 1" by (simp add: vn) linarith
  ultimately have b: "n < 2 ^ 53 * T" by simp
  have "fl x = sgn x * (of_int (round_half_even (\<bar>x\<bar> * 2 ^ 1074 / 2 ^ t)) * 2 ^ t / 2 ^ 1074)"
  proof (rule fl_by_scale)
    show "2 ^ (52 + t) \<le> \<bar>x\<bar> * 2 ^ 1074"
      using a assms(1) by (simp only: power_add T_def n_def K_def abs_of_pos)
    show "\<bar>x\<bar> * 2 ^ 1074 < 2 ^ (53 + t)"
      using b assms(1) by (simp only: power_add T_def n_def K_def abs_of_pos)
  qed
  then have f: "fl x = of_int (round_half_even (n / T)) * T / K"
    using assms(1) by (simp only: K_def [symmetric] T_def [symmetric] n_def abs_of_pos sgn_pos mult_1)
  have x: "x = (n / T) * T / K" using T K by (simp add: n_def)
  have "fl x - x = (of_int (round_half_even (n / T)) - n / T) * T / K"
    by (subst x, subst f) (simp add: algebra_simps diff_divide_distrib)
  then have "\<bar>fl x - x\<bar> = \<bar>of_int (round_half_even (n / T)) - n / T\<bar> * T / K"
    using T K by (simp add: abs_mult)
  also have "\<dots> \<le> (1 / 2) * T / K"
    using round_half_even_error [of "n / T"] T K
    by (intro divide_right_mono mult_right_mono) simp_all
  also have "(1 / 2) * T / K = (2 ^ 52 * T) / K / 2 ^ 53"
    by simp
  also have "\<dots> \<le> n / K / 2 ^ 53"
    using a K by (intro divide_right_mono) simp_all
  also have "n / K = x" using K by (simp add: n_def)
  finally show ?thesis .
qed

lemma fl_of_int:
  assumes "\<bar>k\<bar> \<le> 2 ^ 53"
  shows "fl (of_int k) = of_int k"
proof (cases "k = 0")
  case True
  then show ?thesis by (simp add: fl_zero)
next
  case False
  define x :: rat where "x = of_int k"
  define a where "a = nat \<bar>k\<bar>"
  have apos: "0 < a" using False by (simp add: a_def)
  have ax: "\<bar>x\<bar> = of_nat a" by (simp add: x_def a_def)
  have sx: "sgn x * of_nat a = x"
    using ax by (metis sgn_mult_abs)
  show ?thesis
  proof (cases "a = 2 ^ 53")
    case True
    have h: "\<bar>x\<bar> / 2 ^ 1 = of_int (2 ^ 52)" by (simp add: ax True)
    have "fl x = sgn x * (of_int (round_half_even (\<bar>x\<bar> / 2 ^ 1)) * 2 ^ 1)"
      by (rule fl_whole) (simp_all add: ax True)
    also have "\<dots> = sgn x * (of_int (2 ^ 52) * 2 ^ 1)"
      by (simp only: h round_half_even_of_int)
    also have "\<dots> = sgn x * of_nat a" by (simp add: True)
    finally have "fl x = sgn x * of_nat a" .
    then have "fl x = x" by (simp only: sx)
    then show ?thesis by (simp only: x_def)
  next
    case ne: False
    have "a \<le> 2 ^ 53" using assms by (simp add: a_def nat_le_iff)
    with ne have lt: "a < 2 ^ 53" by simp
    define w where "w = floorlog 2 a"
    have "w \<le> 53" unfolding w_def using lt by (intro floorlog_leI) simp_all
    moreover have "0 < w" using apos by (simp add: w_def floorlog_def)
    ultimately have "w + (53 - w) = 53" and "53 - w \<le> 52" by simp_all
    then obtain p where p: "w + p = 53" "p \<le> 52" by blast
    from floorlog_bounds [OF apos, of 2] have lo: "2 ^ (w - 1) \<le> a" and hi: "a < 2 ^ w"
      by (simp_all add: w_def)
    have "2 ^ (w - 1) * 2 ^ p \<le> a * 2 ^ p" using lo by simp
    moreover have "w - 1 + p = 52" using p \<open>0 < w\<close> by simp
    ultimately have l2: "2 ^ 52 \<le> a * 2 ^ p" by (simp add: power_add [symmetric])
    have "a * 2 ^ p < 2 ^ w * 2 ^ p" using hi by simp
    then have h2: "a * 2 ^ p < 2 ^ 53" using p(1) by (simp add: power_add [symmetric])
    have i: "\<bar>x\<bar> * 2 ^ p = of_int (int (a * 2 ^ p))" by (simp add: ax)
    have "fl x = sgn x * (of_int (round_half_even (\<bar>x\<bar> * 2 ^ p)) / 2 ^ p)"
    proof (rule fl_fraction)
      show "p \<le> 1074" using p(2) by simp
      have "(of_nat (2 ^ 52) :: rat) \<le> of_nat (a * 2 ^ p)" using l2 by (simp only: of_nat_le_iff)
      then show "2 ^ 52 \<le> \<bar>x\<bar> * 2 ^ p" by (simp add: ax)
      have "(of_nat (a * 2 ^ p) :: rat) < of_nat (2 ^ 53)" using h2 by (simp only: of_nat_less_iff)
      then show "\<bar>x\<bar> * 2 ^ p < 2 ^ 53" by (simp add: ax)
    qed
    also have "\<dots> = sgn x * (of_int (int (a * 2 ^ p)) / 2 ^ p)"
      by (simp only: i round_half_even_of_int)
    also have "\<dots> = sgn x * of_nat a" by simp
    finally have "fl x = sgn x * of_nat a" .
    then have "fl x = x" by (simp only: sx)
    then show ?thesis by (simp only: x_def)
  qed
qed

lemma floor_num: "\<lfloor>numeral a / numeral b :: rat\<rfloor> = numeral a div numeral b"
  using floor_divide_of_int_eq [of "numeral a" "numeral b", where ?'a = rat] by simp

lemma fl_numeral: "(numeral k :: int) \<le> 2 ^ 53 \<Longrightarrow> fl (numeral k) = numeral k"
  using fl_of_int [of "numeral k"] by simp

lemma seven_hundredths: "fl (7 / 100) = 1261007895663739 / 18014398509481984"
  by (subst fl_fraction [where p = 56]) (simp_all add: round_half_even_def floor_num)

lemma toFixed2_of_int:
  assumes "\<bar>n\<bar> \<le> 2 ^ 53"
  shows "toFixed2 (of_int n) = of_int n"
proof -
  define x :: rat where "x = of_int n"
  have ax: "\<bar>x\<bar> = of_int \<bar>n\<bar>" by (simp add: x_def)
  have "(of_int \<bar>n\<bar> :: rat) \<le> of_int (2 ^ 53)" using assms by (simp only: of_int_le_iff)
  then have "\<bar>x\<bar> \<le> 2 ^ 53" by (simp only: ax of_int_numeral of_int_power)
  moreover have "(2 :: rat) ^ 53 < 10 ^ 21" by simp
  ultimately have "\<bar>x\<bar> < 10 ^ 21" by (rule le_less_trans)
  then have b: "\<not> 10 ^ 21 \<le> \<bar>x\<bar>" by (simp only: not_le)
  have "\<lfloor>rat_of_int (\<bar>n\<bar> * 100) + 1 / 2\<rfloor> = \<bar>n\<bar> * 100"
    by (rule floor_unique) simp_all
  then have c: "\<lfloor>\<bar>x\<bar> * 100 + 1 / 2\<rfloor> = \<bar>n\<bar> * 100" by (simp add: ax)
  have "sgn x * (of_int (\<bar>n\<bar> * 100) / 100) = sgn x * \<bar>x\<bar>" by (simp add: ax)
  also have "\<dots> = x" by (rule sgn_mult_abs)
  finally have d: "sgn x * (of_int (\<bar>n\<bar> * 100) / 100) = x" .
  have "toFixed2 x = fl x"
    unfolding toFixed2_def hundredths_def using b by (simp only: c d if_False)
  also have "\<dots> = x" unfolding x_def using assms by (rule fl_of_int)
  finally show ?thesis by (simp only: x_def)
qed

lemma toFixed2_numeral:
  "(numeral k :: int) \<le> 2 ^ 53 \<Longrightarrow> toFixed2 (numeral k) = numeral k"
  using toFixed2_of_int [of "numeral k"] by simp

lemma plus_num_of_int:
  "\<bar>a + b\<bar> \<le> 2 ^ 53 \<Longrightarrow> plus_num (of_int a) (of_int b) = of_int (a + b)"
  using fl_of_int [of "a + b"] by (simp add: plus_num_def)

lemma times_num_of_int:
  "\<bar>a * b\<bar> \<le> 2 ^ 53 \<Longrightarrow> times_num (of_int a) (of_int b) = of_int (a * b)"
  using fl_of_int [of "a * b"] by (simp add: times_num_def)

lemma plus_quantity_exact: "\<bar>a + b\<bar> \<le> 2 ^ 53 \<Longrightarrow> plus_quantity a b = a + b"
  by (simp add: plus_quantity_def plus_num_of_int)

lemma normal_range:
  fixes x :: rat
  assumes "1 / 128 \<le> x"
  shows "2 ^ 52 \<le> x * 2 ^ 1074"
proof -
  define K :: rat where "K = 2 ^ 1067"
  have "(2 :: rat) ^ 1074 = 2 ^ (7 + 1067)" by simp
  then have e: "(2 :: rat) ^ 1074 = 128 * K" by (simp only: power_add K_def) simp
  have "(2 :: rat) ^ 52 \<le> 2 ^ 1067" by (rule power_increasing) simp_all
  then have k: "2 ^ 52 \<le> K" by (simp only: K_def)
  have "0 < K" by (simp add: K_def)
  then have "K \<le> x * (128 * K)" using assms by (simp add: field_simps)
  with k show ?thesis unfolding e by (rule order_trans)
qed

lemma fl_near_hundredth:
  fixes x :: rat
  assumes "1 \<le> k" and "k \<le> 2 ^ 50" and "\<bar>100 * x - of_int k\<bar> \<le> 1 / 8"
  shows "hundredths (fl x) = k \<and> toFixed2 (fl x) = fl (of_int k / 100) \<and> 0 < fl x"
proof -
  have k1: "(1 :: rat) \<le> of_int k" using assms(1) by simp
  have "(of_int k :: rat) \<le> of_int (2 ^ 50)" using assms(2) by (simp only: of_int_le_iff)
  then have k2: "(of_int k :: rat) \<le> 1125899906842624" by simp
  have lo: "of_int k - 1 / 8 \<le> 100 * x" and hi: "100 * x \<le> of_int k + 1 / 8"
    using assms(3) unfolding abs_le_iff by linarith+
  have xpos: "0 < x" using lo k1 by linarith
  have "1 / 128 \<le> x" using lo k1 by linarith
  then have "2 ^ 52 \<le> x * 2 ^ 1074" by (rule normal_range)
  with xpos have "\<bar>fl x - x\<bar> \<le> x / 2 ^ 53" by (rule fl_error)
  then have e: "\<bar>fl x - x\<bar> \<le> x / 9007199254740992" by simp
  have a: "of_int k - 1 / 2 < 100 * fl x" and b: "100 * fl x < of_int k + 1 / 2"
    using e lo hi k1 k2 unfolding abs_le_iff by linarith+
  have pos: "0 < fl x" using a k1 by linarith
  have "\<lfloor>100 * fl x + 1 / 2\<rfloor> = k"
    using a b by (intro floor_unique) linarith+
  then have h: "hundredths (fl x) = k"
    using pos by (simp add: hundredths_def mult.commute)
  have "\<bar>fl x\<bar> < 1000000000000000000000" using b k2 pos by linarith
  then have "\<not> 10 ^ 21 \<le> \<bar>fl x\<bar>" by simp
  then have "toFixed2 (fl x) = fl (of_int k / 100)"
    using pos by (simp add: toFixed2_def h)
  with h pos show ?thesis by simp
qed

lemma floor_half: "\<lfloor>1 / 2 :: rat\<rfloor> = 0"
  by (rule floor_unique) simp_all

lemma hundredths_zero: "hundredths 0 = 0"
  by (simp add: hundredths_def floor_half)

lemma toFixed2_zero: "toFixed2 0 = 0"
  by (simp add: toFixed2_def hundredths_zero fl_zero)

lemma hundredths_of_int: "0 \<le> n \<Longrightarrow> hundredths (of_int n) = 100 * n"
proof -
  assume "0 \<le> n"
  have "\<lfloor>rat_of_int (100 * n) + 1 / 2\<rfloor> = 100 * n"
    by (rule floor_unique) simp_all
  with \<open>0 \<le> n\<close> show ?thesis by (simp add: hundredths_def mult.commute)
qed

section \<open>Facts about the storage and the catalogue\<close>

lemma readCart_Json: "fh_cart s = Some (Json c) \<Longrightarrow> readCart s = Inr c"
  by (simp add: readCart_def readCart_try_def truthy_text_def)

lemma readCart_absent: "fh_cart s = None \<Longrightarrow> readCart s = Inr []"
  by (simp add: readCart_def readCart_try_def)

lemma readCart_Malformed: "fh_cart s = Some (Malformed t) \<Longrightarrow> readCart s = Inr []"
  by (simp add: readCart_def readCart_try_def split: sum.splits)

lemma readCart_returns: "\<exists>c. readCart s = Inr c"
  by (simp add: readCart_def split: sum.splits)

lemma find_catalog:
  "(find (\<lambda>p. ident p = productId) MOCK_PRODUCTS = None) = (productId \<notin> set (map ident MOCK_PRODUCTS))"
  by (auto simp: find_None_iff)

lemma p1_in_catalog: "js ''p1'' \<in> set (map ident MOCK_PRODUCTS)"
  by (simp add: MOCK_PRODUCTS_def)

lemma proto_not_in_catalog: "js ''__proto__'' \<notin> set (map ident MOCK_PRODUCTS)"
  by (simp add: MOCK_PRODUCTS_def js_def)

lemma or_zero_eq: "or_zero v = (case v of None \<Rightarrow> 0 | Some n \<Rightarrow> n)"
  by (simp add: or_zero_def split: option.splits)

lemma assign_other: "k \<noteq> js ''__proto__'' \<Longrightarrow> assign k v c = AList.update k v c"
  by (simp add: assign_def)

lemma assign_present: "map_of c k \<noteq> None \<Longrightarrow> assign k v c = AList.update k v c"
  by (auto simp: assign_def)

lemma assign_proto: "map_of c (js ''__proto__'') = None \<Longrightarrow> assign (js ''__proto__'') v c = c"
  by (simp add: assign_def)

lemma addToCart_unknown:
  "productId \<notin> set (map ident MOCK_PRODUCTS) \<Longrightarrow> addToCart productId q s = (Inl NotFound, s)"
proof -
  assume "productId \<notin> set (map ident MOCK_PRODUCTS)"
  then have "find (\<lambda>p. ident p = productId) MOCK_PRODUCTS = None"
    using find_catalog [of productId] by simp
  then show ?thesis by (simp add: addToCart_def)
qed

lemma addToCart_known:
  assumes "productId \<in> set (map ident MOCK_PRODUCTS)" and "readCart s = Inr c"
  shows "addToCart productId (Some q) s =
    (Inr \<lparr>success = True,
          cart = AList.update productId (plus_quantity (or_zero (map_of c productId)) q) c\<rparr>,
     s\<lparr>fh_cart := Some (Json (AList.update productId (plus_quantity (or_zero (map_of c productId)) q) c))\<rparr>)"
proof -
  from assms(1) obtain p where "find (\<lambda>p. ident p = productId) MOCK_PRODUCTS = Some p"
    using find_catalog [of productId] by auto
  moreover have "productId \<noteq> js ''__proto__''"
  proof
    assume "productId = js ''__proto__''"
    with assms(1) have "js ''__proto__'' \<in> set (map ident MOCK_PRODUCTS)" by (simp only:)
    with proto_not_in_catalog show False by (rule notE)
  qed
  ultimately show ?thesis using assms(2)
    by (simp add: addToCart_def writeCart_def JSON_stringify_def Let_def assign_other)
qed

lemma addToCart_default: "addToCart productId None s = addToCart productId (Some 1) s"
  by (simp add: addToCart_def)

section \<open>Facts about the line totals, the tax and the total\<close>

lemma catalogue_price:
  "\<exists>P :: int. price (case find (\<lambda>x. ident x = k) MOCK_PRODUCTS of Some x \<Rightarrow> x | None \<Rightarrow> placeholder k)
       = of_int P \<and> 0 \<le> P \<and> P \<le> 70"
proof (cases "find (\<lambda>x. ident x = k) MOCK_PRODUCTS")
  case None
  then show ?thesis by (simp add: placeholder_def)
next
  case (Some x)
  then have "x \<in> set MOCK_PRODUCTS" by (auto simp: find_Some_iff)
  then consider "price x = of_int 45" | "price x = of_int 70" | "price x = of_int 60" | "price x = of_int 30"
    by (auto simp: MOCK_PRODUCTS_def)
  then show ?thesis
  proof cases
    case 1 with Some show ?thesis by (intro exI [of _ 45]) simp
  next
    case 2 with Some show ?thesis by (intro exI [of _ 70]) simp
  next
    case 3 with Some show ?thesis by (intro exI [of _ 60]) simp
  next
    case 4 with Some show ?thesis by (intro exI [of _ 30]) simp
  qed
qed

lemma line_total_exact:
  assumes "0 \<le> q" and "70 * q \<le> 2 ^ 53"
  shows "\<exists>n :: int. item.total (line_item (k, q)) = of_int n \<and> 0 \<le> n \<and> n \<le> 70 * q"
proof -
  define p where "p = (case find (\<lambda>x. ident x = k) MOCK_PRODUCTS of Some x \<Rightarrow> x | None \<Rightarrow> placeholder k)"
  from catalogue_price [of k] obtain P :: int where P: "price p = of_int P" "0 \<le> P" "P \<le> 70"
    unfolding p_def by blast
  have n0: "0 \<le> P * q" using P(2) assms(1) by simp
  have "P * q \<le> 70 * q" using P(3) assms(1) by (rule mult_right_mono)
  with assms(2) have n1: "P * q \<le> 70 * q" and n2: "P * q \<le> 2 ^ 53" by simp_all
  have b: "\<bar>P * q\<bar> \<le> 2 ^ 53" using n0 n2 by simp
  have "item.total (line_item (k, q)) = toFixed2 (times_num (of_int P) (of_int q))"
    by (simp add: line_item_def p_def [symmetric] Let_def product.defs P(1))
  also have "\<dots> = toFixed2 (of_int (P * q))"
    using b by (simp only: times_num_of_int)
  also have "\<dots> = of_int (P * q)"
    using b by (rule toFixed2_of_int)
  finally show ?thesis using n0 n1 by blast
qed

lemma subtotal_exact:
  assumes "list_all (\<lambda>e. 0 \<le> snd e) c" and "0 \<le> A" and "A + 70 * sum_list (map snd c) \<le> 2 ^ 53"
  shows "\<exists>S :: int. foldl (\<lambda>s it. plus_num s (item.total it)) (of_int A) (map line_item c) = of_int S \<and>
           of_int S = of_int A + sum_list (map item.total (map line_item c)) \<and>
           A \<le> S \<and> S \<le> A + 70 * sum_list (map snd c)"
  using assms
proof (induction c arbitrary: A)
  case Nil
  then show ?case by simp
next
  case (Cons e c)
  obtain k q where e: "e = (k, q)" by (cases e)
  from Cons.prems(1) have q0: "0 \<le> q" and rest: "list_all (\<lambda>e. 0 \<le> snd e) c"
    by (simp_all add: e)
  have s0: "0 \<le> sum_list (map snd c)"
    using rest by (induction c) simp_all
  from Cons.prems(3) have bound: "A + 70 * q + 70 * sum_list (map snd c) \<le> 2 ^ 53"
    by (simp add: e algebra_simps)
  have "70 * q \<le> 2 ^ 53" using bound s0 Cons.prems(2) by linarith
  from line_total_exact [OF q0 this, of k] obtain n :: int
    where n: "item.total (line_item (k, q)) = of_int n" "0 \<le> n" "n \<le> 70 * q" by blast
  have an: "\<bar>A + n\<bar> \<le> 2 ^ 53" using bound s0 Cons.prems(2) n(2,3) by linarith
  have step: "plus_num (of_int A) (item.total (line_item (k, q))) = of_int (A + n)"
    using an by (simp only: n(1) plus_num_of_int)
  have "0 \<le> A + n" using Cons.prems(2) n(2) by simp
  moreover have "A + n + 70 * sum_list (map snd c) \<le> 2 ^ 53" using bound n(3) by linarith
  ultimately obtain S :: int where S:
    "foldl (\<lambda>s it. plus_num s (item.total it)) (of_int (A + n)) (map line_item c) = of_int S"
    "of_int S = of_int (A + n) + sum_list (map item.total (map line_item c))"
    "A + n \<le> S" "S \<le> A + n + 70 * sum_list (map snd c)"
    using Cons.IH [OF rest] by blast
  have "foldl (\<lambda>s it. plus_num s (item.total it)) (of_int A) (map line_item (e # c)) =
      foldl (\<lambda>s it. plus_num s (item.total it))
        (plus_num (of_int A) (item.total (line_item (k, q)))) (map line_item c)"
    by (simp add: e)
  also have "\<dots> = of_int S" by (simp only: step S(1))
  finally have "foldl (\<lambda>s it. plus_num s (item.total it)) (of_int A) (map line_item (e # c)) = of_int S" .
  moreover have "of_int S = of_int A + sum_list (map item.total (map line_item (e # c)))"
    using S(2) by (simp add: e n(1))
  moreover have "A \<le> S" using S(3) n(2) by linarith
  moreover have "S \<le> A + 70 * sum_list (map snd (e # c))" using S(4) n(3) by (simp add: e)
  ultimately show ?case by blast
qed

lemma tax_exact:
  assumes "0 \<le> S" and "S \<le> 7 * 10 ^ 12"
  shows "toFixed2 (times_num (of_int S) (fl (7 / 100))) = fl (of_int (7 * S) / 100) \<and>
         hundredths (fl (of_int (7 * S) / 100)) = 7 * S \<and>
         \<bar>100 * fl (of_int (7 * S) / 100) - of_int (7 * S)\<bar> \<le> 1 / 8"
proof (cases "S = 0")
  case True
  then show ?thesis
    by (simp add: times_num_def fl_zero toFixed2_zero hundredths_zero)
next
  case False
  with assms(1) have S1: "1 \<le> S" by simp
  have r1: "(1 :: rat) \<le> of_int S" using S1 by simp
  have "(of_int S :: rat) \<le> of_int (7 * 10 ^ 12)" using assms(2) by (simp only: of_int_le_iff)
  then have r2: "(of_int S :: rat) \<le> 7000000000000" by simp
  define x :: rat where "x = of_int S * (1261007895663739 / 18014398509481984)"
  define y :: rat where "y = of_int (7 * S) / 100"
  have k1: "1 \<le> 7 * S" using S1 by simp
  have k2: "7 * S \<le> 2 ^ 50" using assms(2) by simp
  have "100 * x - of_int (7 * S) = of_int S * (3 / 4503599627370496)"
    by (simp add: x_def algebra_simps)
  then have "\<bar>100 * x - of_int (7 * S)\<bar> \<le> 1 / 8"
    using r1 r2 by (simp add: abs_le_iff)
  from fl_near_hundredth [OF k1 k2 this]
  have a: "toFixed2 (fl x) = fl y" by (simp add: y_def)
  have "\<bar>100 * y - of_int (7 * S)\<bar> \<le> 1 / 8" by (simp add: y_def)
  from fl_near_hundredth [OF k1 k2 this]
  have b: "hundredths (fl y) = 7 * S" by simp
  have ypos: "0 < y" and ylow: "1 / 128 \<le> y" and yhigh: "y \<le> 490000000000"
    using r1 r2 by (simp_all add: y_def)
  from ylow have "2 ^ 52 \<le> y * 2 ^ 1074" by (rule normal_range)
  with ypos have "\<bar>fl y - y\<bar> \<le> y / 2 ^ 53" by (rule fl_error)
  then have "\<bar>fl y - y\<bar> \<le> y / 9007199254740992" by simp
  moreover have "of_int (7 * S) = 100 * y" by (simp add: y_def)
  ultimately have c: "\<bar>100 * fl y - of_int (7 * S)\<bar> \<le> 1 / 8"
    using yhigh ypos unfolding abs_le_iff by linarith
  show ?thesis
    using a b c by (simp only: times_num_def seven_hundredths x_def y_def)
qed

lemma total_exact:
  assumes "0 \<le> S" and "S \<le> 7 * 10 ^ 12" and "ship = 0 \<or> ship = 5"
  shows "toFixed2 (plus_num (plus_num (of_int S) (of_int ship)) (fl (of_int (7 * S) / 100))) =
           fl (of_int (107 * S + 100 * ship) / 100) \<and>
         hundredths (fl (of_int (107 * S + 100 * ship) / 100)) = 107 * S + 100 * ship"
proof -
  define N where "N = 107 * S + 100 * ship"
  define t :: rat where "t = fl (of_int (7 * S) / 100)"
  have sh: "0 \<le> ship" "ship \<le> 5" using assms(3) by auto
  have "\<bar>S + ship\<bar> \<le> 2 ^ 53" using assms(1,2) sh by simp
  then have p: "plus_num (of_int S) (of_int ship) = of_int (S + ship)"
    by (rule plus_num_of_int)
  from tax_exact [OF assms(1,2)] have c: "\<bar>100 * t - of_int (7 * S)\<bar> \<le> 1 / 8"
    by (simp only: t_def)
  define T :: rat where "T = of_int (S + ship) + t"
  have d: "100 * T - of_int N = 100 * t - of_int (7 * S)"
    by (simp add: T_def N_def algebra_simps)
  have "plus_num (plus_num (of_int S) (of_int ship)) t = plus_num (of_int (S + ship)) t"
    by (simp only: p)
  also have "\<dots> = fl T" by (simp only: plus_num_def T_def)
  finally have raw: "plus_num (plus_num (of_int S) (of_int ship)) t = fl T" .
  show ?thesis
  proof (cases "N = 0")
    case True
    then have "S = 0" and "ship = 0" using assms(1) sh(1) by (simp_all add: N_def)
    then have "t = 0" and "T = 0" by (simp_all add: t_def T_def fl_zero)
    with True show ?thesis
      unfolding raw N_def [symmetric] t_def [symmetric]
      by (simp add: fl_zero toFixed2_zero hundredths_zero)
  next
    case False
    have "0 \<le> N" using assms(1) sh(1) by (simp add: N_def)
    with False have k1: "1 \<le> N" by simp
    have k2: "N \<le> 2 ^ 50" using assms(2) sh(2) by (simp add: N_def)
    have "\<bar>100 * T - of_int N\<bar> \<le> 1 / 8" using c by (simp only: d)
    from fl_near_hundredth [OF k1 k2 this]
    have a: "toFixed2 (fl T) = fl (of_int N / 100)" by simp
    have "\<bar>100 * (of_int N / 100 :: rat) - of_int N\<bar> \<le> 1 / 8" by simp
    from fl_near_hundredth [OF k1 k2 this]
    have b: "hundredths (fl (of_int N / 100)) = N" by simp
    show ?thesis
      unfolding raw [unfolded t_def] N_def [symmetric] using a b by simp
  qed
qed

section \<open>The cart summary\<close>

text \<open>
  C1. For a stored mapping of whole quantities, none negative and at most \<open>10^11\<close> units
  in all, the cart read returns a summary with one line item for each entry. Every line total
  is a whole number, and their sum \<open>S\<close> is computed without rounding error. Shipping is
  exactly 5 when there is a line item and exactly 0 when there is none. Subtotal, tax and
  total are each rounded to two decimals on their own: the subtotal is \<open>S\<close>, the tax is
  the double nearest to seven hundredths of \<open>S\<close>, and the total is the double nearest to
  \<open>S\<close> plus shipping plus seven hundredths of \<open>S\<close>. Written with two decimals, as
  \<open>toFixed(2)\<close> writes them, the tax is 7% of the subtotal and the total is the subtotal
  plus the shipping plus the tax.
\<close>

theorem getCart_summary:
  assumes "readCart s = Inr c"
    and "list_all (\<lambda>e. 0 \<le> snd e) c"
    and "sum_list (map snd c) \<le> 10 ^ 11"
  shows "\<exists>r S. getCart s = (Inr r, s) \<and>
           length (items r) = length c \<and>
           of_int S = sum_list (map item.total (items r)) \<and>
           shipping r = (if 0 < length (items r) then 5 else 0) \<and>
           subtotal r = toFixed2 (of_int S) \<and>
           tax r = toFixed2 (times_num (of_int S) (fl (7 / 100))) \<and>
           summary.total r = toFixed2 (plus_num (plus_num (of_int S) (shipping r)) (tax r)) \<and>
           subtotal r = of_int S \<and>
           tax r = fl (of_int (7 * S) / 100) \<and>
           summary.total r = fl (of_int S + shipping r + of_int (7 * S) / 100) \<and>
           hundredths (tax r) = 7 * S \<and>
           hundredths (summary.total r) =
             hundredths (subtotal r) + hundredths (shipping r) + hundredths (tax r)"
proof -
  define its where "its = map line_item c"
  define ship :: int where "ship = (if 0 < length its then 5 else 0)"
  have "0 + 70 * sum_list (map snd c) \<le> (2 :: int) ^ 53" using assms(3) by simp
  from subtotal_exact [OF assms(2) order_refl this] obtain S :: int where S:
    "foldl (\<lambda>s it. plus_num s (item.total it)) 0 its = of_int S"
    "of_int S = sum_list (map item.total its)"
    "0 \<le> S" "S \<le> 70 * sum_list (map snd c)"
    unfolding its_def by auto
  have S2: "S \<le> 7 * 10 ^ 12" using S(4) assms(3) by simp
  have sh: "ship = 0 \<or> ship = 5" by (simp add: ship_def)
  define tx where "tx = toFixed2 (times_num (of_int S) (fl (7 / 100)))"
  define tot where "tot = toFixed2 (plus_num (plus_num (of_int S) (of_int ship)) tx)"
  define r where "r = \<lparr>items = its, subtotal = toFixed2 (of_int S), shipping = of_int ship,
      tax = tx, total = tot\<rparr>"
  have shr: "(of_int ship :: rat) = (if 0 < length its then 5 else 0)" by (simp add: ship_def)
  have g: "getCart s = (Inr r, s)"
    using assms(1)
    by (simp add: getCart_def Let_def its_def [symmetric] S(1) r_def tx_def tot_def shr)
  have sub: "toFixed2 (of_int S) = of_int S"
    using S(3) S2 by (intro toFixed2_of_int) simp
  from tax_exact [OF S(3) S2] have t1: "tx = fl (of_int (7 * S) / 100)"
    and t2: "hundredths (fl (of_int (7 * S) / 100)) = 7 * S"
    by (simp_all only: tx_def)
  from total_exact [OF S(3) S2 sh] have u1: "tot = fl (of_int (107 * S + 100 * ship) / 100)"
    and u2: "hundredths (fl (of_int (107 * S + 100 * ship) / 100)) = 107 * S + 100 * ship"
    by (simp_all only: tot_def t1)
  have e: "(of_int (107 * S + 100 * ship) / 100 :: rat) = of_int S + of_int ship + of_int (7 * S) / 100"
    by simp
  have hs: "hundredths (of_int ship) = 100 * ship"
    using sh by (intro hundredths_of_int) auto
  have hS: "hundredths (of_int S) = 100 * S"
    using S(3) by (rule hundredths_of_int)
  have tr: "tax r = tx" "summary.total r = tot" "subtotal r = toFixed2 (of_int S)"
      "shipping r = of_int ship"
    by (simp_all add: r_def)
  have "length (items r) = length c" by (simp add: r_def its_def)
  moreover have "of_int S = sum_list (map item.total (items r))" using S(2) by (simp add: r_def)
  moreover have "shipping r = (if 0 < length (items r) then 5 else 0)" by (simp add: r_def shr)
  moreover have "subtotal r = toFixed2 (of_int S)" by (simp add: r_def)
  moreover have "tax r = toFixed2 (times_num (of_int S) (fl (7 / 100)))" by (simp add: r_def tx_def)
  moreover have "summary.total r = toFixed2 (plus_num (plus_num (of_int S) (shipping r)) (tax r))"
    by (simp add: r_def tot_def)
  moreover have "subtotal r = of_int S" by (simp add: r_def sub)
  moreover have "tax r = fl (of_int (7 * S) / 100)" by (simp add: r_def t1)
  moreover have "summary.total r = fl (of_int S + shipping r + of_int (7 * S) / 100)"
  proof -
    have "summary.total r = tot" and "shipping r = of_int ship" by (simp_all add: r_def)
    then show ?thesis by (simp only: u1 e)
  qed
  moreover have "hundredths (tax r) = 7 * S" by (simp only: tr t1 t2)
  moreover have "hundredths (summary.total r) =
             hundredths (subtotal r) + hundredths (shipping r) + hundredths (tax r)"
    by (simp only: tr sub hS hs t1 t2 u1 u2)
  ultimately show ?thesis using g by blast
qed

theorem getCart_summary_witness:
  "readCart \<lparr>fh_cart = Some (Json [(js ''p2'', 3)]), fh_token = None, fh_user = None\<rparr> = Inr [(js ''p2'', 3)] \<and>
   list_all (\<lambda>e. 0 \<le> snd e) [(js ''p2'', 3 :: int)] \<and>
   sum_list (map snd [(js ''p2'', 3 :: int)]) \<le> 10 ^ 11 \<and>
   (\<exists>r. getCart \<lparr>fh_cart = Some (Json [(js ''p2'', 3)]), fh_token = None, fh_user = None\<rparr> =
          (Inr r, \<lparr>fh_cart = Some (Json [(js ''p2'', 3)]), fh_token = None, fh_user = None\<rparr>) \<and>
        length (items r) = 1 \<and> shipping r = 5 \<and>
        hundredths (summary.total r) = hundredths (subtotal r) + hundredths (shipping r) + hundredths (tax r))"
proof -
  have r: "readCart \<lparr>fh_cart = Some (Json [(js ''p2'', 3)]), fh_token = None, fh_user = None\<rparr> = Inr [(js ''p2'', 3)]"
    by (simp add: readCart_Json)
  have n: "list_all (\<lambda>e. 0 \<le> snd e) [(js ''p2'', 3 :: int)]"
    by simp
  have b: "sum_list (map snd [(js ''p2'', 3 :: int)]) \<le> 10 ^ 11"
    by simp
  from getCart_summary [OF r n b] obtain r' where
    "getCart \<lparr>fh_cart = Some (Json [(js ''p2'', 3)]), fh_token = None, fh_user = None\<rparr> =
          (Inr r', \<lparr>fh_cart = Some (Json [(js ''p2'', 3)]), fh_token = None, fh_user = None\<rparr>)"
    "length (items r') = length [(js ''p2'', 3 :: int)]"
    "shipping r' = (if 0 < length (items r') then 5 else 0)"
    "hundredths (summary.total r') = hundredths (subtotal r') + hundredths (shipping r') + hundredths (tax r')"
    by blast
  then have "getCart \<lparr>fh_cart = Some (Json [(js ''p2'', 3)]), fh_token = None, fh_user = None\<rparr> =
          (Inr r', \<lparr>fh_cart = Some (Json [(js ''p2'', 3)]), fh_token = None, fh_user = None\<rparr>) \<and>
        length (items r') = 1 \<and> shipping r' = 5 \<and>
        hundredths (summary.total r') = hundredths (subtotal r') + hundredths (shipping r') + hundredths (tax r')"
    by simp
  then have "\<exists>r. getCart \<lparr>fh_cart = Some (Json [(js ''p2'', 3)]), fh_token = None, fh_user = None\<rparr> =
          (Inr r, \<lparr>fh_cart = Some (Json [(js ''p2'', 3)]), fh_token = None, fh_user = None\<rparr>) \<and>
        length (items r) = 1 \<and> shipping r = 5 \<and>
        hundredths (summary.total r) = hundredths (subtotal r) + hundredths (shipping r) + hundredths (tax r)"
    by (rule exI [of _ r'])
  with r n b show ?thesis by (intro conjI)
qed

section \<open>The cart summary of a very large cart\<close>

lemma line_item_p1_large:
  "line_item (js ''p1'', 13000000000001) =
     product.extend (MOCK_PRODUCTS ! 0) \<lparr>qty = 13000000000001, total = 585000000000045\<rparr>"
  using times_num_of_int [of 45 13000000000001]
  by (simp add: line_item_def MOCK_PRODUCTS_def js_def toFixed2_numeral)

lemma subtotal_large: "plus_num 0 585000000000045 = 585000000000045"
  using plus_num_of_int [of 0 585000000000045] by simp

lemma tax_large:
  "times_num 585000000000045 (fl (7 / 100)) = 1310400000000101 / 32"
  unfolding times_num_def seven_hundredths
  by (subst fl_fraction [where p = 7]) (simp_all add: round_half_even_def floor_num)

lemma fl_tax_large: "fl (1023750000000079 / 25) = 1310400000000101 / 32"
  by (subst fl_fraction [where p = 7]) (simp_all add: round_half_even_def floor_num)

lemma toFixed2_tax_large: "toFixed2 (1310400000000101 / 32) = 1310400000000101 / 32"
  by (simp add: toFixed2_def hundredths_def floor_num fl_tax_large)

lemma total_raw_large:
  "plus_num (plus_num 585000000000045 5) (1310400000000101 / 32) = 5007600000000425 / 8"
proof -
  have "plus_num 585000000000045 5 = 585000000000050"
    using plus_num_of_int [of 585000000000045 5] by simp
  moreover have "fl (585000000000050 + 1310400000000101 / 32) = 5007600000000425 / 8"
    by (subst fl_fraction [where p = 3]) (simp_all add: round_half_even_def floor_num)
  ultimately show ?thesis by (simp add: plus_num_def)
qed

lemma fl_total_large: "fl (62595000000005313 / 100) = 5007600000000425 / 8"
  by (subst fl_fraction [where p = 3]) (simp_all add: round_half_even_def floor_num)

lemma toFixed2_total_large: "toFixed2 (5007600000000425 / 8) = 5007600000000425 / 8"
  by (simp add: toFixed2_def hundredths_def floor_num fl_total_large)

text \<open>
  The statement of C1 does not hold for every cart. With 13000000000001 units of p1 the
  subtotal is 585000000000045. The tax returned is the double 40950000000003.15625, written
  40950000000003.16, where 7% of the subtotal is 40950000000003.15. The total returned is
  the double 625950000000053.125, written 625950000000053.13, where the subtotal, the
  shipping and the tax as written add up to 625950000000053.16; nor is the total returned
  the exact sum of the three numbers returned.
\<close>

theorem getCart_large_quantity:
  "getCart \<lparr>fh_cart = Some (Json [(js ''p1'', 13000000000001)]), fh_token = None, fh_user = None\<rparr> =
     (Inr \<lparr>items = [product.extend (MOCK_PRODUCTS ! 0)
                       \<lparr>qty = 13000000000001, total = 585000000000045\<rparr>],
            subtotal = 585000000000045, shipping = 5,
            tax = 1310400000000101 / 32, total = 5007600000000425 / 8\<rparr>,
      \<lparr>fh_cart = Some (Json [(js ''p1'', 13000000000001)]), fh_token = None, fh_user = None\<rparr>) \<and>
   hundredths (1310400000000101 / 32) = 4095000000000316 \<and>
   hundredths (1310400000000101 / 32) \<noteq> 7 * 585000000000045 \<and>
   hundredths (5007600000000425 / 8) = 62595000000005313 \<and>
   hundredths (5007600000000425 / 8) \<noteq>
     hundredths 585000000000045 + hundredths 5 + hundredths (1310400000000101 / 32) \<and>
   (5007600000000425 / 8 :: rat) \<noteq> 585000000000045 + 5 + 1310400000000101 / 32"
proof (intro conjI)
  show "getCart \<lparr>fh_cart = Some (Json [(js ''p1'', 13000000000001)]), fh_token = None, fh_user = None\<rparr> =
     (Inr \<lparr>items = [product.extend (MOCK_PRODUCTS ! 0)
                       \<lparr>qty = 13000000000001, total = 585000000000045\<rparr>],
            subtotal = 585000000000045, shipping = 5,
            tax = 1310400000000101 / 32, total = 5007600000000425 / 8\<rparr>,
      \<lparr>fh_cart = Some (Json [(js ''p1'', 13000000000001)]), fh_token = None, fh_user = None\<rparr>)"
    by (simp add: getCart_def readCart_Json line_item_p1_large Let_def product.defs item.defs
        subtotal_large tax_large toFixed2_tax_large total_raw_large toFixed2_total_large
        toFixed2_numeral)
qed (simp_all add: hundredths_def floor_num)

section \<open>Facts about the worked example\<close>

lemma tax_150: "times_num 150 (fl (7 / 100)) = 5910974510923777 / 562949953421312"
  unfolding times_num_def seven_hundredths
  by (subst fl_fraction [where p = 49]) (simp_all add: round_half_even_def floor_num)

lemma toFixed2_tax_150: "toFixed2 (5910974510923777 / 562949953421312) = 21 / 2"
proof -
  have "fl (21 / 2) = 21 / 2"
    by (subst fl_fraction [where p = 49]) (simp_all add: round_half_even_def floor_num)
  then show ?thesis by (simp add: toFixed2_def hundredths_def floor_num)
qed

lemma toFixed2_total_150: "toFixed2 (plus_num (plus_num 150 5) (21 / 2)) = 331 / 2"
proof -
  have a: "fl (331 / 2) = 331 / 2"
    by (subst fl_fraction [where p = 45]) (simp_all add: round_half_even_def floor_num)
  have e: "plus_num (plus_num 150 5) (21 / 2) = 331 / 2"
    by (simp add: plus_num_def fl_numeral a)
  have t: "toFixed2 (331 / 2) = 331 / 2"
    by (simp add: toFixed2_def hundredths_def floor_num a)
  show ?thesis unfolding e by (rule t)
qed

lemma line_item_p1:
  "line_item (js ''p1'', 2) = product.extend (MOCK_PRODUCTS ! 0) \<lparr>qty = 2, total = 90\<rparr>"
  using times_num_of_int [of 45 2]
  by (simp add: line_item_def MOCK_PRODUCTS_def js_def toFixed2_numeral)

lemma line_item_p3:
  "line_item (js ''p3'', 1) = product.extend (MOCK_PRODUCTS ! 2) \<lparr>qty = 1, total = 60\<rparr>"
  using times_num_of_int [of 60 1]
  by (simp add: line_item_def MOCK_PRODUCTS_def js_def toFixed2_numeral)

lemma subtotal_150: "plus_num (plus_num 0 90) 60 = 150"
  using plus_num_of_int [of 0 90] plus_num_of_int [of 90 60] by simp

section \<open>The worked example of the cart summary\<close>

text \<open>
  C9. The stored cart \<open>{p1: 2, p3: 1}\<close>, where the catalogue prices p1 at 45.00 and p3 at
  60.00, is read with subtotal 150.00, shipping 5.00, tax 10.50 and total 165.50; the read
  leaves the storage as it was.
\<close>

theorem getCart_example:
  "map (\<lambda>p. (ident p, price p)) [MOCK_PRODUCTS ! 0, MOCK_PRODUCTS ! 2] = [(js ''p1'', 45), (js ''p3'', 60)] \<and>
   getCart \<lparr>fh_cart = Some (Json [(js ''p1'', 2), (js ''p3'', 1)]), fh_token = t, fh_user = u\<rparr> =
    (Inr \<lparr>items = [product.extend (MOCK_PRODUCTS ! 0) \<lparr>qty = 2, total = 90\<rparr>,
                     product.extend (MOCK_PRODUCTS ! 2) \<lparr>qty = 1, total = 60\<rparr>],
           subtotal = 150, shipping = 5, tax = 21 / 2, total = 331 / 2\<rparr>,
     \<lparr>fh_cart = Some (Json [(js ''p1'', 2), (js ''p3'', 1)]), fh_token = t, fh_user = u\<rparr>)"
proof
  show "map (\<lambda>p. (ident p, price p)) [MOCK_PRODUCTS ! 0, MOCK_PRODUCTS ! 2] = [(js ''p1'', 45), (js ''p3'', 60)]"
    by (simp add: MOCK_PRODUCTS_def)
  show "getCart \<lparr>fh_cart = Some (Json [(js ''p1'', 2), (js ''p3'', 1)]), fh_token = t, fh_user = u\<rparr> =
    (Inr \<lparr>items = [product.extend (MOCK_PRODUCTS ! 0) \<lparr>qty = 2, total = 90\<rparr>,
                     product.extend (MOCK_PRODUCTS ! 2) \<lparr>qty = 1, total = 60\<rparr>],
           subtotal = 150, shipping = 5, tax = 21 / 2, total = 331 / 2\<rparr>,
     \<lparr>fh_cart = Some (Json [(js ''p1'', 2), (js ''p3'', 1)]), fh_token = t, fh_user = u\<rparr>)"
    by (simp add: getCart_def readCart_Json line_item_p1 line_item_p3 Let_def
        product.defs item.defs subtotal_150 tax_150 toFixed2_tax_150 toFixed2_total_150 toFixed2_numeral)
qed

section \<open>Adding an item\<close>

text \<open>
  C10. When the product is not in the catalogue, add-item fails with NotFound and the storage
  after the call is the storage before it: the catalogue is looked up before the cart is read
  or written.
\<close>

theorem addToCart_unknown_product:
  "productId \<notin> set (map ident MOCK_PRODUCTS) \<Longrightarrow> addToCart productId q s = (Inl NotFound, s)"
  by (rule addToCart_unknown)

theorem addToCart_unknown_product_witness:
  "js ''p9'' \<notin> set (map ident MOCK_PRODUCTS) \<and>
   addToCart (js ''p9'') (Some 1) \<lparr>fh_cart = Some (Json [(js ''p1'', 2)]), fh_token = None, fh_user = None\<rparr> =
     (Inl NotFound, \<lparr>fh_cart = Some (Json [(js ''p1'', 2)]), fh_token = None, fh_user = None\<rparr>)"
proof -
  have h: "js ''p9'' \<notin> set (map ident MOCK_PRODUCTS)"
    by (simp add: MOCK_PRODUCTS_def js_def)
  show ?thesis using h addToCart_unknown_product [OF h] by simp
qed

lemma plus_quantity_tie: "plus_quantity 9007199254740992 1 = 9007199254740992"
proof -
  have "fl 9007199254740993 = 9007199254740992"
    by (subst fl_whole [where p = 1]) (simp_all add: round_half_even_def floor_num)
  then show ?thesis by (simp add: plus_quantity_def plus_num_def)
qed

text \<open>
  C3. Add-item fails with NotFound exactly when the product is not in the catalogue. For a
  product of the catalogue it returns and stores the whole mapping with the entry of the
  product set to the sum, as JavaScript adds two numbers, of its previous quantity (zero when
  there was none) and the quantity given, every other entry as it was. Where the sums stay
  within \<open>2^53\<close> in magnitude the additions are exact: one addition leaves the previous
  quantity plus \<open>q1\<close>, and two additions in a row, of \<open>q1\<close> and then \<open>q2\<close>,
  leave the previous quantity plus \<open>q1 + q2\<close>, so \<open>q1 + q2\<close> where there was no
  entry.
\<close>

theorem addToCart_adds:
  assumes "readCart s = Inr c"
  shows "((fst (addToCart productId qa s) = Inl NotFound) = (productId \<notin> set (map ident MOCK_PRODUCTS))) \<and>
   (productId \<in> set (map ident MOCK_PRODUCTS) \<longrightarrow>
     (\<exists>c1 c2.
        addToCart productId (Some q1) s =
          (Inr \<lparr>success = True, cart = c1\<rparr>, s\<lparr>fh_cart := Some (Json c1)\<rparr>) \<and>
        readCart (s\<lparr>fh_cart := Some (Json c1)\<rparr>) = Inr c1 \<and>
        map_of c1 =
          (map_of c)(productId \<mapsto>
            plus_quantity (case map_of c productId of None \<Rightarrow> 0 | Some n \<Rightarrow> n) q1) \<and>
        addToCart productId (Some q2) (s\<lparr>fh_cart := Some (Json c1)\<rparr>) =
          (Inr \<lparr>success = True, cart = c2\<rparr>, s\<lparr>fh_cart := Some (Json c2)\<rparr>) \<and>
        readCart (s\<lparr>fh_cart := Some (Json c2)\<rparr>) = Inr c2 \<and>
        map_of c2 =
          (map_of c)(productId \<mapsto>
            plus_quantity (plus_quantity (case map_of c productId of None \<Rightarrow> 0 | Some n \<Rightarrow> n) q1) q2) \<and>
        (\<bar>(case map_of c productId of None \<Rightarrow> 0 | Some n \<Rightarrow> n) + q1\<bar> \<le> 2 ^ 53 \<longrightarrow>
           map_of c1 productId = Some ((case map_of c productId of None \<Rightarrow> 0 | Some n \<Rightarrow> n) + q1)) \<and>
        (\<bar>(case map_of c productId of None \<Rightarrow> 0 | Some n \<Rightarrow> n) + q1\<bar> \<le> 2 ^ 53 \<and>
         \<bar>(case map_of c productId of None \<Rightarrow> 0 | Some n \<Rightarrow> n) + q1 + q2\<bar> \<le> 2 ^ 53 \<longrightarrow>
           map_of c2 productId =
             Some ((case map_of c productId of None \<Rightarrow> 0 | Some n \<Rightarrow> n) + (q1 + q2))) \<and>
        (map_of c productId = None \<and> \<bar>q1\<bar> \<le> 2 ^ 53 \<and> \<bar>q1 + q2\<bar> \<le> 2 ^ 53 \<longrightarrow>
           map_of c2 productId = Some (q1 + q2))))"
proof (intro conjI impI)
  show "(fst (addToCart productId qa s) = Inl NotFound) = (productId \<notin> set (map ident MOCK_PRODUCTS))"
  proof (cases "find (\<lambda>p. ident p = productId) MOCK_PRODUCTS")
    case None
    then show ?thesis using find_catalog [of productId] by (simp add: addToCart_def)
  next
    case (Some p)
    then show ?thesis using find_catalog [of productId] assms
      by (simp add: addToCart_def Let_def)
  qed
next
  assume known: "productId \<in> set (map ident MOCK_PRODUCTS)"
  define prev where "prev = (case map_of c productId of None \<Rightarrow> 0 | Some n \<Rightarrow> n)"
  define v1 where "v1 = plus_quantity prev q1"
  define v2 where "v2 = plus_quantity v1 q2"
  define c1 where "c1 = AList.update productId v1 c"
  define s1 where "s1 = s\<lparr>fh_cart := Some (Json c1)\<rparr>"
  define c2 where "c2 = AList.update productId v2 c1"
  have p: "or_zero (map_of c productId) = prev"
    by (simp only: or_zero_eq prev_def)
  have a1: "addToCart productId (Some q1) s = (Inr \<lparr>success = True, cart = c1\<rparr>, s1)"
    using addToCart_known [OF known assms, of q1] by (simp only: p c1_def s1_def v1_def)
  have r1: "readCart s1 = Inr c1"
    by (simp add: s1_def readCart_Json)
  have m1: "map_of c1 = (map_of c)(productId \<mapsto> v1)"
    by (simp add: c1_def update_conv')
  have p1: "or_zero (map_of c1 productId) = v1"
    by (simp add: m1 or_zero_eq)
  have a2: "addToCart productId (Some q2) s1 =
      (Inr \<lparr>success = True, cart = c2\<rparr>, s\<lparr>fh_cart := Some (Json c2)\<rparr>)"
    using addToCart_known [OF known r1, of q2] by (simp add: p1 c2_def s1_def v2_def)
  have r2: "readCart (s\<lparr>fh_cart := Some (Json c2)\<rparr>) = Inr c2"
    by (simp add: readCart_Json)
  have m2: "map_of c2 = (map_of c)(productId \<mapsto> v2)"
    by (simp add: c2_def m1 update_conv')
  have e1: "\<bar>prev + q1\<bar> \<le> 2 ^ 53 \<longrightarrow> map_of c1 productId = Some (prev + q1)"
    by (simp add: m1 v1_def plus_quantity_exact)
  have e2: "\<bar>prev + q1\<bar> \<le> 2 ^ 53 \<and> \<bar>prev + q1 + q2\<bar> \<le> 2 ^ 53 \<longrightarrow>
      map_of c2 productId = Some (prev + (q1 + q2))"
    by (simp add: m2 v2_def v1_def plus_quantity_exact add.assoc)
  have e3: "map_of c productId = None \<and> \<bar>q1\<bar> \<le> 2 ^ 53 \<and> \<bar>q1 + q2\<bar> \<le> 2 ^ 53 \<longrightarrow>
      map_of c2 productId = Some (q1 + q2)"
    using e2 by (simp add: prev_def)
  have "addToCart productId (Some q1) s =
          (Inr \<lparr>success = True, cart = c1\<rparr>, s\<lparr>fh_cart := Some (Json c1)\<rparr>) \<and>
        readCart (s\<lparr>fh_cart := Some (Json c1)\<rparr>) = Inr c1 \<and>
        map_of c1 = (map_of c)(productId \<mapsto> plus_quantity prev q1) \<and>
        addToCart productId (Some q2) (s\<lparr>fh_cart := Some (Json c1)\<rparr>) =
          (Inr \<lparr>success = True, cart = c2\<rparr>, s\<lparr>fh_cart := Some (Json c2)\<rparr>) \<and>
        readCart (s\<lparr>fh_cart := Some (Json c2)\<rparr>) = Inr c2 \<and>
        map_of c2 = (map_of c)(productId \<mapsto> plus_quantity (plus_quantity prev q1) q2) \<and>
        (\<bar>prev + q1\<bar> \<le> 2 ^ 53 \<longrightarrow> map_of c1 productId = Some (prev + q1)) \<and>
        (\<bar>prev + q1\<bar> \<le> 2 ^ 53 \<and> \<bar>prev + q1 + q2\<bar> \<le> 2 ^ 53 \<longrightarrow>
           map_of c2 productId = Some (prev + (q1 + q2))) \<and>
        (map_of c productId = None \<and> \<bar>q1\<bar> \<le> 2 ^ 53 \<and> \<bar>q1 + q2\<bar> \<le> 2 ^ 53 \<longrightarrow>
           map_of c2 productId = Some (q1 + q2))"
    using a1 r1 m1 a2 r2 m2 e1 e2 e3 unfolding s1_def v1_def v2_def by simp
  then show "\<exists>c1 c2.
        addToCart productId (Some q1) s =
          (Inr \<lparr>success = True, cart = c1\<rparr>, s\<lparr>fh_cart := Some (Json c1)\<rparr>) \<and>
        readCart (s\<lparr>fh_cart := Some (Json c1)\<rparr>) = Inr c1 \<and>
        map_of c1 =
          (map_of c)(productId \<mapsto>
            plus_quantity (case map_of c productId of None \<Rightarrow> 0 | Some n \<Rightarrow> n) q1) \<and>
        addToCart productId (Some q2) (s\<lparr>fh_cart := Some (Json c1)\<rparr>) =
          (Inr \<lparr>success = True, cart = c2\<rparr>, s\<lparr>fh_cart := Some (Json c2)\<rparr>) \<and>
        readCart (s\<lparr>fh_cart := Some (Json c2)\<rparr>) = Inr c2 \<and>
        map_of c2 =
          (map_of c)(productId \<mapsto>
            plus_quantity (plus_quantity (case map_of c productId of None \<Rightarrow> 0 | Some n \<Rightarrow> n) q1) q2) \<and>
        (\<bar>(case map_of c productId of None \<Rightarrow> 0 | Some n \<Rightarrow> n) + q1\<bar> \<le> 2 ^ 53 \<longrightarrow>
           map_of c1 productId = Some ((case map_of c productId of None \<Rightarrow> 0 | Some n \<Rightarrow> n) + q1)) \<and>
        (\<bar>(case map_of c productId of None \<Rightarrow> 0 | Some n \<Rightarrow> n) + q1\<bar> \<le> 2 ^ 53 \<and>
         \<bar>(case map_of c productId of None \<Rightarrow> 0 | Some n \<Rightarrow> n) + q1 + q2\<bar> \<le> 2 ^ 53 \<longrightarrow>
           map_of c2 productId =
             Some ((case map_of c productId of None \<Rightarrow> 0 | Some n \<Rightarrow> n) + (q1 + q2))) \<and>
        (map_of c productId = None \<and> \<bar>q1\<bar> \<le> 2 ^ 53 \<and> \<bar>q1 + q2\<bar> \<le> 2 ^ 53 \<longrightarrow>
           map_of c2 productId = Some (q1 + q2))"
    unfolding prev_def by (intro exI [of _ c1] exI [of _ c2])
qed

theorem addToCart_adds_witness:
  "readCart \<lparr>fh_cart = None, fh_token = None, fh_user = None\<rparr> = Inr [] \<and>
   js ''p1'' \<in> set (map ident MOCK_PRODUCTS) \<and>
   map_of ([] :: cart) (js ''p1'') = None \<and>
   \<bar>2 :: int\<bar> \<le> 2 ^ 53 \<and> \<bar>2 + 3 :: int\<bar> \<le> 2 ^ 53 \<and>
   (\<exists>c1 c2.
      addToCart (js ''p1'') (Some 2) \<lparr>fh_cart = None, fh_token = None, fh_user = None\<rparr> =
        (Inr \<lparr>success = True, cart = c1\<rparr>, \<lparr>fh_cart = Some (Json c1), fh_token = None, fh_user = None\<rparr>) \<and>
      addToCart (js ''p1'') (Some 3) \<lparr>fh_cart = Some (Json c1), fh_token = None, fh_user = None\<rparr> =
        (Inr \<lparr>success = True, cart = c2\<rparr>, \<lparr>fh_cart = Some (Json c2), fh_token = None, fh_user = None\<rparr>) \<and>
      map_of c2 (js ''p1'') = Some 5)"
proof -
  have r: "readCart \<lparr>fh_cart = None, fh_token = None, fh_user = None\<rparr> = Inr []"
    by (simp add: readCart_absent)
  from addToCart_adds [OF r, of "js ''p1''" None 2 3] p1_in_catalog
  obtain c1 c2 where
    "addToCart (js ''p1'') (Some 2) \<lparr>fh_cart = None, fh_token = None, fh_user = None\<rparr> =
        (Inr \<lparr>success = True, cart = c1\<rparr>, \<lparr>fh_cart = Some (Json c1), fh_token = None, fh_user = None\<rparr>)"
    "addToCart (js ''p1'') (Some 3) \<lparr>fh_cart = Some (Json c1), fh_token = None, fh_user = None\<rparr> =
        (Inr \<lparr>success = True, cart = c2\<rparr>, \<lparr>fh_cart = Some (Json c2), fh_token = None, fh_user = None\<rparr>)"
    "map_of c2 (js ''p1'') = Some 5"
    by auto
  then show ?thesis using r p1_in_catalog by auto
qed

text \<open>
  The sum of C3 is not exact beyond \<open>2^53\<close>: adding 1 to the stored quantity
  9007199254740992 stores 9007199254740992 again, the double nearest to the sum.
\<close>

theorem addToCart_beyond_safe_integers:
  "addToCart (js ''p1'') (Some 1)
     \<lparr>fh_cart = Some (Json [(js ''p1'', 9007199254740992)]), fh_token = None, fh_user = None\<rparr> =
     (Inr \<lparr>success = True, cart = [(js ''p1'', 9007199254740992)]\<rparr>,
      \<lparr>fh_cart = Some (Json [(js ''p1'', 9007199254740992)]), fh_token = None, fh_user = None\<rparr>) \<and>
   (9007199254740992 :: int) \<noteq> 9007199254740992 + 1"
proof -
  have r: "readCart \<lparr>fh_cart = Some (Json [(js ''p1'', 9007199254740992)]), fh_token = None, fh_user = None\<rparr>
      = Inr [(js ''p1'', 9007199254740992)]"
    by (simp add: readCart_Json)
  show ?thesis
    using addToCart_known [OF p1_in_catalog r, of 1]
    by (simp add: or_zero_def plus_quantity_tie)
qed

section \<open>Facts about line items, set-quantity and remove-item\<close>

lemma ident_line_item: "ident (line_item (k, n)) = k"
proof (cases "find (\<lambda>x. ident x = k) MOCK_PRODUCTS")
  case None
  then show ?thesis by (simp add: line_item_def placeholder_def product.defs)
next
  case (Some p)
  then have "ident p = k" by (auto simp: find_Some_iff)
  with Some show ?thesis by (simp add: line_item_def product.defs)
qed

lemma idents_line_items: "map ident (map line_item c) = map fst c"
  by (induction c) (auto simp: ident_line_item)

lemma getCart_items:
  "readCart s = Inr c \<Longrightarrow> \<exists>r. getCart s = (Inr r, s) \<and> items r = map line_item c"
  by (simp add: getCart_def Let_def)

lemma setCartQuantity_result:
  assumes "readCart s = Inr c"
  shows "setCartQuantity productId q s =
    (Inr \<lparr>success = True, cart = (if q \<le> 0 then AList.delete productId c else assign productId q c)\<rparr>,
     s\<lparr>fh_cart := Some (Json (if q \<le> 0 then AList.delete productId c else assign productId q c))\<rparr>)"
  using assms by (simp add: setCartQuantity_def writeCart_def JSON_stringify_def Let_def)

lemma removeFromCart_result:
  assumes "readCart s = Inr c"
  shows "removeFromCart productId s =
    (Inr \<lparr>success = True, cart = AList.delete productId c\<rparr>,
     s\<lparr>fh_cart := Some (Json (AList.delete productId c))\<rparr>)"
  using assms by (simp add: removeFromCart_def writeCart_def JSON_stringify_def Let_def)

section \<open>Setting a quantity\<close>

text \<open>
  C4. Set-quantity never fails and always writes the mapping back, whatever the product id:
  the catalogue is not consulted. With a quantity of zero or less the entry of the id is
  removed, and the cart read afterwards has no line item with that id. With a positive
  quantity the entry holds exactly the quantity given, whatever it held before, and every
  other entry is as it was. The one exception is the id \<open>__proto__\<close> on a mapping that
  has no entry for it: there the assignment creates no property, and the mapping is written
  back as it was.
\<close>

theorem setCartQuantity_sets:
  assumes "readCart s = Inr c"
  shows "\<exists>c'. setCartQuantity productId q s =
            (Inr \<lparr>success = True, cart = c'\<rparr>, s\<lparr>fh_cart := Some (Json c')\<rparr>) \<and>
          readCart (s\<lparr>fh_cart := Some (Json c')\<rparr>) = Inr c' \<and>
          (q \<le> 0 \<longrightarrow> map_of c' = (map_of c)(productId := None) \<and>
             (\<exists>r. getCart (s\<lparr>fh_cart := Some (Json c')\<rparr>) = (Inr r, s\<lparr>fh_cart := Some (Json c')\<rparr>) \<and>
                  productId \<notin> set (map ident (items r)))) \<and>
          (0 < q \<and> productId \<noteq> js ''__proto__'' \<longrightarrow> map_of c' = (map_of c)(productId \<mapsto> q)) \<and>
          (0 < q \<and> map_of c productId \<noteq> None \<longrightarrow> map_of c' = (map_of c)(productId \<mapsto> q)) \<and>
          (0 < q \<and> productId = js ''__proto__'' \<and> map_of c productId = None \<longrightarrow> c' = c)"
proof -
  define c' where "c' = (if q \<le> 0 then AList.delete productId c else assign productId q c)"
  define s' where "s' = s\<lparr>fh_cart := Some (Json c')\<rparr>"
  have a: "setCartQuantity productId q s = (Inr \<lparr>success = True, cart = c'\<rparr>, s')"
    using setCartQuantity_result [OF assms] by (simp add: c'_def s'_def)
  have r: "readCart s' = Inr c'"
    by (simp add: s'_def readCart_Json)
  from getCart_items [OF r] obtain r' where g: "getCart s' = (Inr r', s')" "items r' = map line_item c'"
    by auto
  have d: "q \<le> 0 \<longrightarrow> map_of c' = (map_of c)(productId := None) \<and>
             (\<exists>r. getCart s' = (Inr r, s') \<and> productId \<notin> set (map ident (items r)))"
  proof
    assume "q \<le> 0"
    then have e: "c' = AList.delete productId c" by (simp add: c'_def)
    have "productId \<notin> fst ` set c'" by (simp add: e delete_notin_dom)
    moreover have "map ident (items r') = map fst c'"
      by (simp only: g(2) idents_line_items)
    then have "set (map ident (items r')) = fst ` set c'"
      by (simp only: set_map)
    ultimately have "productId \<notin> set (map ident (items r'))"
      by simp
    with g(1) e show "map_of c' = (map_of c)(productId := None) \<and>
             (\<exists>r. getCart s' = (Inr r, s') \<and> productId \<notin> set (map ident (items r)))"
      by (simp add: delete_conv')
  qed
  have u1: "0 < q \<and> productId \<noteq> js ''__proto__'' \<longrightarrow> map_of c' = (map_of c)(productId \<mapsto> q)"
    by (simp add: c'_def assign_other update_conv')
  have u2: "0 < q \<and> map_of c productId \<noteq> None \<longrightarrow> map_of c' = (map_of c)(productId \<mapsto> q)"
    by (simp add: c'_def assign_present update_conv')
  have u3: "0 < q \<and> productId = js ''__proto__'' \<and> map_of c productId = None \<longrightarrow> c' = c"
    by (auto simp: c'_def assign_def)
  show ?thesis
    apply (rule exI [of _ c'])
    using a r d u1 u2 u3 unfolding s'_def by simp
qed

theorem setCartQuantity_sets_witness:
  "js ''zz'' \<notin> set (map ident MOCK_PRODUCTS) \<and>
   js ''zz'' \<noteq> js ''__proto__'' \<and>
   readCart \<lparr>fh_cart = Some (Json [(js ''zz'', 4)]), fh_token = None, fh_user = None\<rparr> = Inr [(js ''zz'', 4)] \<and>
   (0 :: int) \<le> 0 \<and>
   (\<exists>c'. setCartQuantity (js ''zz'') 0 \<lparr>fh_cart = Some (Json [(js ''zz'', 4)]), fh_token = None, fh_user = None\<rparr> =
            (Inr \<lparr>success = True, cart = c'\<rparr>, \<lparr>fh_cart = Some (Json c'), fh_token = None, fh_user = None\<rparr>) \<and>
          map_of c' (js ''zz'') = None) \<and>
   (0 :: int) < 7 \<and>
   map_of [(js ''zz'', 4 :: int)] (js ''zz'') = Some 4 \<and>
   (\<exists>c'. setCartQuantity (js ''zz'') 7 \<lparr>fh_cart = Some (Json [(js ''zz'', 4)]), fh_token = None, fh_user = None\<rparr> =
            (Inr \<lparr>success = True, cart = c'\<rparr>, \<lparr>fh_cart = Some (Json c'), fh_token = None, fh_user = None\<rparr>) \<and>
          map_of c' (js ''zz'') = Some 7) \<and>
   readCart \<lparr>fh_cart = None, fh_token = None, fh_user = None\<rparr> = Inr [] \<and>
   map_of ([] :: cart) (js ''__proto__'') = None \<and>
   (\<exists>c'. setCartQuantity (js ''__proto__'') 7 \<lparr>fh_cart = None, fh_token = None, fh_user = None\<rparr> =
            (Inr \<lparr>success = True, cart = c'\<rparr>, \<lparr>fh_cart = Some (Json c'), fh_token = None, fh_user = None\<rparr>) \<and>
          c' = [])"
proof -
  have r: "readCart \<lparr>fh_cart = Some (Json [(js ''zz'', 4)]), fh_token = None, fh_user = None\<rparr> = Inr [(js ''zz'', 4)]"
    by (simp add: readCart_Json)
  have r0: "readCart \<lparr>fh_cart = None, fh_token = None, fh_user = None\<rparr> = Inr []"
    by (simp add: readCart_absent)
  have zp: "js ''zz'' \<noteq> js ''__proto__''" by (simp add: js_def)
  from setCartQuantity_sets [OF r, of "js ''zz''" 0]
  obtain c0 where c0:
    "setCartQuantity (js ''zz'') 0 \<lparr>fh_cart = Some (Json [(js ''zz'', 4)]), fh_token = None, fh_user = None\<rparr> =
            (Inr \<lparr>success = True, cart = c0\<rparr>, \<lparr>fh_cart = Some (Json c0), fh_token = None, fh_user = None\<rparr>)"
    "map_of c0 (js ''zz'') = None"
    by auto
  from setCartQuantity_sets [OF r, of "js ''zz''" 7] zp
  obtain c7 where c7:
    "setCartQuantity (js ''zz'') 7 \<lparr>fh_cart = Some (Json [(js ''zz'', 4)]), fh_token = None, fh_user = None\<rparr> =
            (Inr \<lparr>success = True, cart = c7\<rparr>, \<lparr>fh_cart = Some (Json c7), fh_token = None, fh_user = None\<rparr>)"
    "map_of c7 (js ''zz'') = Some 7"
    by auto
  from setCartQuantity_sets [OF r0, of "js ''__proto__''" 7]
  obtain cp where cp:
    "setCartQuantity (js ''__proto__'') 7 \<lparr>fh_cart = None, fh_token = None, fh_user = None\<rparr> =
            (Inr \<lparr>success = True, cart = cp\<rparr>, \<lparr>fh_cart = Some (Json cp), fh_token = None, fh_user = None\<rparr>)"
    "cp = []"
    by auto
  have e0: "\<exists>c'. setCartQuantity (js ''zz'') 0 \<lparr>fh_cart = Some (Json [(js ''zz'', 4)]), fh_token = None, fh_user = None\<rparr> =
            (Inr \<lparr>success = True, cart = c'\<rparr>, \<lparr>fh_cart = Some (Json c'), fh_token = None, fh_user = None\<rparr>) \<and>
          map_of c' (js ''zz'') = None"
    using c0 by (intro exI [of _ c0] conjI)
  have e7: "\<exists>c'. setCartQuantity (js ''zz'') 7 \<lparr>fh_cart = Some (Json [(js ''zz'', 4)]), fh_token = None, fh_user = None\<rparr> =
            (Inr \<lparr>success = True, cart = c'\<rparr>, \<lparr>fh_cart = Some (Json c'), fh_token = None, fh_user = None\<rparr>) \<and>
          map_of c' (js ''zz'') = Some 7"
    using c7 by (intro exI [of _ c7] conjI)
  have ep: "\<exists>c'. setCartQuantity (js ''__proto__'') 7 \<lparr>fh_cart = None, fh_token = None, fh_user = None\<rparr> =
            (Inr \<lparr>success = True, cart = c'\<rparr>, \<lparr>fh_cart = Some (Json c'), fh_token = None, fh_user = None\<rparr>) \<and>
          c' = []"
    using cp by (intro exI [of _ cp] conjI)
  have z: "js ''zz'' \<notin> set (map ident MOCK_PRODUCTS)"
    by (simp add: MOCK_PRODUCTS_def js_def)
  show ?thesis using z zp r r0 e0 e7 ep by simp
qed

text \<open>
  The exception of C4: on the empty storage, set-quantity of 5 for the id \<open>__proto__\<close>
  succeeds and stores the empty mapping, which holds no quantity for that id.
\<close>

theorem setCartQuantity_proto:
  "setCartQuantity (js ''__proto__'') 5 \<lparr>fh_cart = None, fh_token = None, fh_user = None\<rparr> =
     (Inr \<lparr>success = True, cart = []\<rparr>, \<lparr>fh_cart = Some (Json []), fh_token = None, fh_user = None\<rparr>) \<and>
   map_of ([] :: cart) (js ''__proto__'') \<noteq> Some 5"
proof -
  have r0: "readCart \<lparr>fh_cart = None, fh_token = None, fh_user = None\<rparr> = Inr []"
    by (simp add: readCart_absent)
  show ?thesis using setCartQuantity_result [OF r0, of "js ''__proto__''" 5]
    by (simp add: assign_proto)
qed

section \<open>Removing an item\<close>

text \<open>
  C7. Remove-item never fails: it writes the mapping back without the entry of the id, every
  other entry as it was. When the mapping has no entry for the id the mapping is unchanged,
  and removing an id a second time returns what the first removal returned and leaves the
  storage the first removal left.
\<close>

theorem removeFromCart_removes:
  assumes "readCart s = Inr c"
  shows "removeFromCart productId s =
           (Inr \<lparr>success = True, cart = AList.delete productId c\<rparr>,
            s\<lparr>fh_cart := Some (Json (AList.delete productId c))\<rparr>) \<and>
         map_of (AList.delete productId c) = (map_of c)(productId := None) \<and>
         (map_of c productId = None \<longrightarrow> AList.delete productId c = c) \<and>
         removeFromCart productId (snd (removeFromCart productId s)) = removeFromCart productId s"
proof -
  define s' where "s' = s\<lparr>fh_cart := Some (Json (AList.delete productId c))\<rparr>"
  have a: "removeFromCart productId s = (Inr \<lparr>success = True, cart = AList.delete productId c\<rparr>, s')"
    using removeFromCart_result [OF assms] by (simp add: s'_def)
  have r: "readCart s' = Inr (AList.delete productId c)"
    by (simp add: s'_def readCart_Json)
  have b: "removeFromCart productId s' = (Inr \<lparr>success = True, cart = AList.delete productId c\<rparr>, s')"
    using removeFromCart_result [OF r, of productId] by (simp add: s'_def delete_idem)
  have n: "map_of c productId = None \<longrightarrow> AList.delete productId c = c"
    by (simp add: map_of_eq_None_iff)
  show ?thesis
    using a b n unfolding s'_def by (simp add: delete_conv')
qed

theorem removeFromCart_removes_witness:
  "readCart \<lparr>fh_cart = Some (Json [(js ''p2'', 1)]), fh_token = None, fh_user = None\<rparr> = Inr [(js ''p2'', 1)] \<and>
   map_of [(js ''p2'', 1 :: int)] (js ''p4'') = None \<and>
   removeFromCart (js ''p4'') \<lparr>fh_cart = Some (Json [(js ''p2'', 1)]), fh_token = None, fh_user = None\<rparr> =
     (Inr \<lparr>success = True, cart = [(js ''p2'', 1)]\<rparr>,
      \<lparr>fh_cart = Some (Json [(js ''p2'', 1)]), fh_token = None, fh_user = None\<rparr>) \<and>
   removeFromCart (js ''p2'') \<lparr>fh_cart = Some (Json [(js ''p2'', 1)]), fh_token = None, fh_user = None\<rparr> =
     (Inr \<lparr>success = True, cart = []\<rparr>, \<lparr>fh_cart = Some (Json []), fh_token = None, fh_user = None\<rparr>)"
proof -
  have r: "readCart \<lparr>fh_cart = Some (Json [(js ''p2'', 1)]), fh_token = None, fh_user = None\<rparr> = Inr [(js ''p2'', 1)]"
    by (simp add: readCart_Json)
  have n: "map_of [(js ''p2'', 1 :: int)] (js ''p4'') = None"
    by (simp add: js_def)
  show ?thesis
    using r n removeFromCart_removes [OF r, of "js ''p4''"] removeFromCart_removes [OF r, of "js ''p2''"]
    by simp
qed

section \<open>Facts about the decimal digits and checkout\<close>

lemma digit_inj:
  assumes "a < 10" and "b < 10" and "(of_nat (48 + a) :: 16 word) = of_nat (48 + b)"
  shows "a = b"
proof -
  from assms(3) have "unat (of_nat (48 + a) :: 16 word) = unat (of_nat (48 + b) :: 16 word)"
    by simp
  then have "(48 + a) mod 2 ^ LENGTH(16) = (48 + b) mod 2 ^ LENGTH(16)"
    by (simp only: unat_of_nat)
  with assms(1,2) show ?thesis by simp
qed

lemma decimal_nonempty: "decimal n \<noteq> []"
  by (subst decimal.simps) simp

lemma decimal_length: "10 \<le> n \<Longrightarrow> 2 \<le> length (decimal n)"
proof -
  assume "10 \<le> n"
  then have "decimal n = decimal (n div 10) @ [of_nat (48 + n mod 10)]"
    by (subst decimal.simps) simp
  moreover have "1 \<le> length (decimal (n div 10))"
    using decimal_nonempty [of "n div 10"] by (cases "decimal (n div 10)") auto
  ultimately show ?thesis by simp
qed

lemma decimal_inj: "decimal n = decimal m \<Longrightarrow> n = m"
proof (induction n arbitrary: m rule: decimal.induct)
  case (1 n)
  show ?case
  proof (cases "n < 10")
    case True
    then have n: "decimal n = [of_nat (48 + n)]" by (subst decimal.simps) simp
    show ?thesis
    proof (cases "m < 10")
      case m: True
      then have "decimal m = [of_nat (48 + m)]" by (subst decimal.simps) simp
      with n "1.prems" have "(of_nat (48 + n) :: 16 word) = of_nat (48 + m)" by simp
      with True m show ?thesis by (rule digit_inj)
    next
      case False
      then have "2 \<le> length (decimal m)" by (simp add: decimal_length)
      with n "1.prems" show ?thesis by simp
    qed
  next
    case False
    then have n: "decimal n = decimal (n div 10) @ [of_nat (48 + n mod 10)]"
      by (subst decimal.simps) simp
    show ?thesis
    proof (cases "m < 10")
      case True
      then have "decimal m = [of_nat (48 + m)]" by (subst decimal.simps) simp
      moreover from False have "2 \<le> length (decimal n)" by (simp add: decimal_length)
      ultimately show ?thesis using "1.prems" by simp
    next
      case m: False
      then have "decimal m = decimal (m div 10) @ [of_nat (48 + m mod 10)]"
        by (subst decimal.simps) simp
      with n "1.prems" have e: "decimal (n div 10) = decimal (m div 10)"
        and d: "(of_nat (48 + n mod 10) :: 16 word) = of_nat (48 + m mod 10)"
        by simp_all
      from "1.IH" [OF False e] have q: "n div 10 = m div 10" .
      have "n mod 10 = m mod 10"
        by (rule digit_inj [OF _ _ d]) simp_all
      with q show ?thesis by (metis div_mult_mod_eq)
    qed
  qed
qed

lemma checkout_empty:
  "readCart s = Inr [] \<Longrightarrow> checkout orderData now s = (Inl EmptyCart, s)"
  by (simp add: checkout_def)

lemma checkout_nonempty:
  "readCart s = Inr c \<Longrightarrow> c \<noteq> [] \<Longrightarrow>
   checkout orderData now s =
     (Inr \<lparr>success = True, orderId = js ''ORD-'' @ decimal now,
           message = js ''Payment successful (fake).''\<rparr>,
      s\<lparr>fh_cart := Some (Json [])\<rparr>)"
  by (simp add: checkout_def writeCart_def JSON_stringify_def)

section \<open>The quantities the cart holds\<close>

text \<open>
  C5. Add-item does not keep the quantities positive. Adding the quantity 0 to the empty cart
  stores the entry \<open>p1: 0\<close>, and adding \<open>-3\<close> to the cart \<open>{p1: 2}\<close> stores
  \<open>p1: -1\<close>: the mapping before the call holds only positive quantities and the mapping
  after it does not.
\<close>

theorem addToCart_stores_nonpositive:
  "positive_quantities [] \<and>
   addToCart (js ''p1'') (Some 0) \<lparr>fh_cart = Some (Json []), fh_token = None, fh_user = None\<rparr> =
     (Inr \<lparr>success = True, cart = [(js ''p1'', 0)]\<rparr>,
      \<lparr>fh_cart = Some (Json [(js ''p1'', 0)]), fh_token = None, fh_user = None\<rparr>) \<and>
   \<not> positive_quantities [(js ''p1'', 0)] \<and>
   positive_quantities [(js ''p1'', 2)] \<and>
   addToCart (js ''p1'') (Some (- 3)) \<lparr>fh_cart = Some (Json [(js ''p1'', 2)]), fh_token = None, fh_user = None\<rparr> =
     (Inr \<lparr>success = True, cart = [(js ''p1'', - 1)]\<rparr>,
      \<lparr>fh_cart = Some (Json [(js ''p1'', - 1)]), fh_token = None, fh_user = None\<rparr>) \<and>
   \<not> positive_quantities [(js ''p1'', - 1)]"
proof -
  have r0: "readCart \<lparr>fh_cart = Some (Json []), fh_token = None, fh_user = None\<rparr> = Inr []"
    by (simp add: readCart_Json)
  have r2: "readCart \<lparr>fh_cart = Some (Json [(js ''p1'', 2)]), fh_token = None, fh_user = None\<rparr> = Inr [(js ''p1'', 2)]"
    by (simp add: readCart_Json)
  show ?thesis
    using addToCart_known [OF p1_in_catalog r0, of 0] addToCart_known [OF p1_in_catalog r2, of "- 3"]
    by (simp add: positive_quantities_def or_zero_def plus_quantity_exact)
qed

section \<open>Where the quantities stay positive\<close>

lemma positive_delete: "positive_quantities c \<Longrightarrow> positive_quantities (AList.delete k c)"
  by (induction c) (auto simp: positive_quantities_def)

lemma positive_update:
  "positive_quantities c \<Longrightarrow> 0 < v \<Longrightarrow> positive_quantities (AList.update k v c)"
  by (induction c) (auto simp: positive_quantities_def)

lemma positive_assign:
  "positive_quantities c \<Longrightarrow> 0 < v \<Longrightarrow> positive_quantities (assign k v c)"
  by (simp add: assign_def positive_update)

lemma plus_quantity_positive:
  assumes "0 \<le> a" and "0 < b"
  shows "0 < plus_quantity a b"
proof (cases "a + b \<le> 2 ^ 53")
  case True
  with assms have "\<bar>a + b\<bar> \<le> 2 ^ 53" by simp
  then have "plus_quantity a b = a + b" by (rule plus_quantity_exact)
  with assms show ?thesis by simp
next
  case False
  define x :: rat where "x = of_int (a + b)"
  from False have "(2 :: int) ^ 53 \<le> a + b" by simp
  then have "(of_int ((2 :: int) ^ 53) :: rat) \<le> of_int (a + b)" by (simp only: of_int_le_iff)
  then have big: "2 ^ 53 \<le> x" by (simp add: x_def)
  then have pos: "0 < x" and n: "1 / 128 \<le> x" by simp_all
  from fl_error [OF pos normal_range [OF n]] have "x - x / 2 ^ 53 \<le> fl x"
    unfolding abs_le_iff by linarith
  moreover have "1 \<le> x - x / 2 ^ 53" using big by (simp add: field_simps)
  ultimately have "1 \<le> fl x" by (rule order_trans [rotated])
  then have "1 \<le> \<lfloor>fl x\<rfloor>" by (simp add: le_floor_iff)
  then show ?thesis by (simp add: plus_quantity_def plus_num_def x_def)
qed

lemma positive_or_zero: "positive_quantities c \<Longrightarrow> 0 \<le> or_zero (map_of c k)"
proof (cases "map_of c k")
  case None
  then show ?thesis by (simp add: or_zero_def)
next
  case (Some n)
  assume "positive_quantities c"
  moreover from Some have "(k, n) \<in> set c" by (rule map_of_SomeD)
  ultimately have "0 < n" by (auto simp: positive_quantities_def list_all_iff)
  with Some show ?thesis by (simp add: or_zero_def)
qed

lemma setCartQuantity_keeps_positive:
  assumes "readCart s = Inr c" and "positive_quantities c"
  shows "\<exists>c'. readCart (snd (setCartQuantity k q s)) = Inr c' \<and> positive_quantities c'"
  using setCartQuantity_result [OF assms(1), of k q] assms(2)
  by (simp add: readCart_Json positive_delete positive_assign)

lemma removeFromCart_keeps_positive:
  assumes "readCart s = Inr c" and "positive_quantities c"
  shows "\<exists>c'. readCart (snd (removeFromCart k s)) = Inr c' \<and> positive_quantities c'"
  using removeFromCart_result [OF assms(1), of k] assms(2)
  by (simp add: readCart_Json positive_delete)

lemma checkout_keeps_positive:
  assumes "readCart s = Inr c" and "positive_quantities c"
  shows "\<exists>c'. readCart (snd (checkout orderData now s)) = Inr c' \<and> positive_quantities c'"
proof (cases "c = []")
  case True
  with assms show ?thesis by (simp add: checkout_empty)
next
  case False
  from checkout_nonempty [OF assms(1) False, of orderData now] show ?thesis
    by (simp add: readCart_Json positive_quantities_def)
qed

lemma addToCart_keeps_positive:
  assumes "readCart s = Inr c" and "positive_quantities c" and "0 < q"
  shows "\<exists>c'. readCart (snd (addToCart k (Some q) s)) = Inr c' \<and> positive_quantities c'"
proof (cases "k \<in> set (map ident MOCK_PRODUCTS)")
  case True
  have "0 < plus_quantity (or_zero (map_of c k)) q"
    using positive_or_zero [OF assms(2), of k] assms(3) by (rule plus_quantity_positive)
  with addToCart_known [OF True assms(1), of q] assms(2) show ?thesis
    by (simp add: readCart_Json positive_update)
next
  case False
  then have "addToCart k (Some q) s = (Inl NotFound, s)" by (rule addToCart_unknown)
  with assms show ?thesis by simp
qed

section \<open>Checkout\<close>

text \<open>
  C2. Checkout on a stored mapping without entries fails with EmptyCart and leaves the storage
  as it was. On a mapping with at least one entry it stores the empty mapping in place of the
  whole cart and returns a confirmation whose order identifier is \<open>ORD-\<close> followed by the
  clock reading in decimal; any successful checkout carries that identifier exactly when it
  read the same clock value, so checkouts at different clock readings get different
  identifiers.
\<close>

theorem checkout_clears:
  assumes "readCart s = Inr c"
  shows "(c = [] \<longrightarrow> checkout orderData now s = (Inl EmptyCart, s)) \<and>
         (c \<noteq> [] \<longrightarrow>
            checkout orderData now s =
              (Inr \<lparr>success = True, orderId = js ''ORD-'' @ decimal now,
                    message = js ''Payment successful (fake).''\<rparr>,
               s\<lparr>fh_cart := Some (Json [])\<rparr>) \<and>
            readCart (s\<lparr>fh_cart := Some (Json [])\<rparr>) = Inr [] \<and>
            (\<forall>now' s' r'. fst (checkout orderData now' s') = Inr r' \<longrightarrow>
               (orderId r' = js ''ORD-'' @ decimal now) = (now' = now)))"
proof (intro conjI impI allI)
  assume "c = []"
  with assms show "checkout orderData now s = (Inl EmptyCart, s)"
    by (simp add: checkout_empty)
next
  assume "c \<noteq> []"
  with assms show "checkout orderData now s =
              (Inr \<lparr>success = True, orderId = js ''ORD-'' @ decimal now,
                    message = js ''Payment successful (fake).''\<rparr>,
               s\<lparr>fh_cart := Some (Json [])\<rparr>)"
    by (rule checkout_nonempty)
next
  show "readCart (s\<lparr>fh_cart := Some (Json [])\<rparr>) = Inr []"
    by (simp add: readCart_Json)
next
  fix now' s' r'
  assume a: "fst (checkout orderData now' s') = Inr r'"
  obtain c' where c': "readCart s' = Inr c'" using readCart_returns by blast
  have "c' \<noteq> []"
  proof
    assume "c' = []"
    with c' have "checkout orderData now' s' = (Inl EmptyCart, s')" by (simp add: checkout_empty)
    with a show False by simp
  qed
  from checkout_nonempty [OF c' this, of orderData now'] a
  have "orderId r' = js ''ORD-'' @ decimal now'" by auto
  then show "(orderId r' = js ''ORD-'' @ decimal now) = (now' = now)"
    using decimal_inj [of now' now] by auto
qed

theorem checkout_clears_witness:
  "readCart \<lparr>fh_cart = None, fh_token = None, fh_user = None\<rparr> = Inr [] \<and>
   checkout () 42 \<lparr>fh_cart = None, fh_token = None, fh_user = None\<rparr> =
     (Inl EmptyCart, \<lparr>fh_cart = None, fh_token = None, fh_user = None\<rparr>) \<and>
   readCart \<lparr>fh_cart = Some (Json [(js ''p1'', 2)]), fh_token = None, fh_user = None\<rparr> = Inr [(js ''p1'', 2)] \<and>
   [(js ''p1'', 2 :: int)] \<noteq> [] \<and>
   checkout () 42 \<lparr>fh_cart = Some (Json [(js ''p1'', 2)]), fh_token = None, fh_user = None\<rparr> =
     (Inr \<lparr>success = True, orderId = js ''ORD-42'', message = js ''Payment successful (fake).''\<rparr>,
      \<lparr>fh_cart = Some (Json []), fh_token = None, fh_user = None\<rparr>)"
proof -
  have r0: "readCart \<lparr>fh_cart = None, fh_token = None, fh_user = None\<rparr> = Inr []"
    by (simp add: readCart_absent)
  have r1: "readCart \<lparr>fh_cart = Some (Json [(js ''p1'', 2)]), fh_token = None, fh_user = None\<rparr> = Inr [(js ''p1'', 2)]"
    by (simp add: readCart_Json)
  have d: "decimal 42 = js ''42''"
    by (simp add: decimal.simps [of 42] decimal.simps [of 4] js_def)
  show ?thesis
    using r0 r1 checkout_clears [OF r0, of "()" 42] checkout_clears [OF r1, of "()" 42]
    by (simp add: d js_def)
qed

text \<open>
  The identifier of C2 is unique only among checkouts that read different clock values. A
  checkout at the clock reading 42, an addition to the cart, and a second checkout at the same
  reading all succeed, and both checkouts return \<open>ORD-42\<close>.
\<close>

theorem checkout_same_clock:
  "checkout () 42 \<lparr>fh_cart = Some (Json [(js ''p1'', 2)]), fh_token = None, fh_user = None\<rparr> =
     (Inr \<lparr>success = True, orderId = js ''ORD-42'', message = js ''Payment successful (fake).''\<rparr>,
      \<lparr>fh_cart = Some (Json []), fh_token = None, fh_user = None\<rparr>) \<and>
   addToCart (js ''p3'') (Some 1) \<lparr>fh_cart = Some (Json []), fh_token = None, fh_user = None\<rparr> =
     (Inr \<lparr>success = True, cart = [(js ''p3'', 1)]\<rparr>,
      \<lparr>fh_cart = Some (Json [(js ''p3'', 1)]), fh_token = None, fh_user = None\<rparr>) \<and>
   checkout () 42 \<lparr>fh_cart = Some (Json [(js ''p3'', 1)]), fh_token = None, fh_user = None\<rparr> =
     (Inr \<lparr>success = True, orderId = js ''ORD-42'', message = js ''Payment successful (fake).''\<rparr>,
      \<lparr>fh_cart = Some (Json []), fh_token = None, fh_user = None\<rparr>)"
proof -
  have r0: "readCart \<lparr>fh_cart = Some (Json []), fh_token = None, fh_user = None\<rparr> = Inr []"
    by (simp add: readCart_Json)
  have r1: "readCart \<lparr>fh_cart = Some (Json [(js ''p1'', 2)]), fh_token = None, fh_user = None\<rparr> = Inr [(js ''p1'', 2)]"
    by (simp add: readCart_Json)
  have r3: "readCart \<lparr>fh_cart = Some (Json [(js ''p3'', 1)]), fh_token = None, fh_user = None\<rparr> = Inr [(js ''p3'', 1)]"
    by (simp add: readCart_Json)
  have p3: "js ''p3'' \<in> set (map ident MOCK_PRODUCTS)"
    by (simp add: MOCK_PRODUCTS_def)
  have d: "decimal 42 = js ''42''"
    by (simp add: decimal.simps [of 42] decimal.simps [of 4] js_def)
  have a: "checkout () 42 \<lparr>fh_cart = Some (Json [(js ''p1'', 2)]), fh_token = None, fh_user = None\<rparr> =
     (Inr \<lparr>success = True, orderId = js ''ORD-42'', message = js ''Payment successful (fake).''\<rparr>,
      \<lparr>fh_cart = Some (Json []), fh_token = None, fh_user = None\<rparr>)"
    using checkout_nonempty [OF r1, of "()" 42] by (simp add: d js_def)
  have b: "addToCart (js ''p3'') (Some 1) \<lparr>fh_cart = Some (Json []), fh_token = None, fh_user = None\<rparr> =
     (Inr \<lparr>success = True, cart = [(js ''p3'', 1)]\<rparr>,
      \<lparr>fh_cart = Some (Json [(js ''p3'', 1)]), fh_token = None, fh_user = None\<rparr>)"
    using addToCart_known [OF p3 r0, of 1] by (simp add: or_zero_def plus_quantity_exact)
  have c: "checkout () 42 \<lparr>fh_cart = Some (Json [(js ''p3'', 1)]), fh_token = None, fh_user = None\<rparr> =
     (Inr \<lparr>success = True, orderId = js ''ORD-42'', message = js ''Payment successful (fake).''\<rparr>,
      \<lparr>fh_cart = Some (Json []), fh_token = None, fh_user = None\<rparr>)"
    using checkout_nonempty [OF r3, of "()" 42] by (simp add: d js_def)
  from a b c show ?thesis by (intro conjI)
qed

section \<open>Facts about the current-user query\<close>

lemma getCurrentUser_Json: "fh_user s = Some (Json u) \<Longrightarrow> getCurrentUser s = Inr (Some u)"
  by (simp add: getCurrentUser_def getCurrentUser_try_def)

lemma getCurrentUser_absent: "fh_user s = None \<Longrightarrow> getCurrentUser s = Inr None"
  by (simp add: getCurrentUser_def getCurrentUser_try_def)

lemma getCurrentUser_returns: "\<exists>u. getCurrentUser s = Inr u"
  by (simp add: getCurrentUser_def split: sum.splits)

section \<open>Facts about login and logout\<close>

lemma decimal_bytes: "\<not> list_ex (\<lambda>u. 255 < u) (decimal n)"
proof (induction n rule: decimal.induct)
  case (1 n)
  have d: "\<not> 255 < (of_nat (48 + k) :: 16 word)" if "k < 10" for k
  proof -
    have "unat (of_nat (48 + k) :: 16 word) = (48 + k) mod 2 ^ LENGTH(16)"
      by (simp only: unat_of_nat)
    also have "\<dots> \<le> 255" using that by simp
    also have "(255 :: nat) = unat (255 :: 16 word)" by simp
    finally have "(of_nat (48 + k) :: 16 word) \<le> 255" by (simp only: word_le_nat_alt)
    then show ?thesis by (simp only: not_less)
  qed
  show ?case
  proof (cases "n < 10")
    case True
    then show ?thesis using d [OF True] by (subst decimal.simps) simp
  next
    case False
    have "n mod 10 < 10" by simp
    with False "1.IH" d [of "n mod 10"] show ?thesis
      by (subst decimal.simps) simp
  qed
qed

lemma btoa_wide: "list_ex (\<lambda>u. 255 < u) str \<Longrightarrow> btoa str = Inl InvalidCharacterError"
  by (simp add: btoa_def)

lemma btoa_bytes: "\<not> list_ex (\<lambda>u. 255 < u) str \<Longrightarrow> btoa str = Inr (b64_encode (map unat str))"
  by (simp add: btoa_def)

lemma login_bytes:
  assumes "\<not> list_ex (\<lambda>u. 255 < u) mail"
  shows "\<exists>tok. login mail password now s =
           (Inr \<lparr>success = True, token = tok, user = \<lparr>email = mail\<rparr>\<rparr>,
            s\<lparr>fh_token := Some tok, fh_user := Some (Json \<lparr>email = mail\<rparr>)\<rparr>) \<and>
         getCurrentUser (s\<lparr>fh_token := Some tok, fh_user := Some (Json \<lparr>email = mail\<rparr>)\<rparr>) =
           Inr (Some \<lparr>email = mail\<rparr>)"
proof -
  have "\<not> list_ex (\<lambda>u. 255 < u) (mail @ js '':'' @ decimal now)"
    using assms decimal_bytes [of now] by (auto simp add: js_def list_ex_iff)
  then have "btoa (mail @ js '':'' @ decimal now) = Inr (b64_encode (map unat (mail @ js '':'' @ decimal now)))"
    by (rule btoa_bytes)
  then show ?thesis
    by (simp add: login_def Let_def JSON_stringify_def getCurrentUser_Json)
qed

lemma logout_clears:
  "logout s = (Inr \<lparr>success = True\<rparr>, s\<lparr>fh_token := None, fh_user := None\<rparr>) \<and>
   getCurrentUser (snd (logout s)) = Inr None \<and>
   logout (snd (logout s)) = logout s"
  by (simp add: logout_def getCurrentUser_absent)

section \<open>The session\<close>

text \<open>
  C6. Login does not succeed for every non-empty email and password. With the email of the
  three code units U+0645, \<open>@\<close> and \<open>x\<close> and the password \<open>pw\<close>, at any clock
  reading and on any storage, \<open>btoa\<close> throws InvalidCharacterError before anything is
  stored: login fails and the storage is as it was.
\<close>

theorem login_rejects_wide_email:
  "[0x645, 0x40, 0x78] \<noteq> ([] :: ustring) \<and> js ''pw'' \<noteq> [] \<and>
   login [0x645, 0x40, 0x78] (js ''pw'') now s = (Inl InvalidCharacterError, s)"
proof -
  have "list_ex (\<lambda>u. 255 < u) ([0x645, 0x40, 0x78] @ js '':'' @ decimal now)"
    by simp
  then have "btoa ([0x645, 0x40, 0x78] @ js '':'' @ decimal now) = Inl InvalidCharacterError"
    by (rule btoa_wide)
  then show ?thesis by (simp add: login_def js_def)
qed

section \<open>Reading what does not parse\<close>

text \<open>
  C8. When the text under the cart key does not parse, the cart read returns the empty mapping
  (and the priced cart has no line item), and when the text under the user key does not parse,
  the current-user query returns null: the SyntaxError of the \<open>try\<close> block is caught.
  Both reads return a value on every storage, so neither raises.
\<close>

theorem reads_never_raise:
  "(fh_cart s = Some (Malformed t) \<longrightarrow>
      readCart s = Inr [] \<and> (t \<noteq> [] \<longrightarrow> readCart_try s = Inl SyntaxError) \<and>
      (\<exists>r. getCart s = (Inr r, s) \<and> items r = [])) \<and>
   (fh_user s = Some (Malformed t') \<longrightarrow>
      getCurrentUser s = Inr None \<and> getCurrentUser_try s = Inl SyntaxError) \<and>
   (\<exists>c. readCart s = Inr c) \<and>
   (\<exists>u. getCurrentUser s = Inr u)"
proof (intro conjI impI)
  assume "fh_cart s = Some (Malformed t)"
  then show "readCart s = Inr []" by (rule readCart_Malformed)
next
  assume "fh_cart s = Some (Malformed t)" and "t \<noteq> []"
  then show "readCart_try s = Inl SyntaxError"
    by (simp add: readCart_try_def truthy_text_def)
next
  assume "fh_cart s = Some (Malformed t)"
  then have "readCart s = Inr []" by (rule readCart_Malformed)
  from getCart_items [OF this] show "\<exists>r. getCart s = (Inr r, s) \<and> items r = []"
    by simp
next
  assume "fh_user s = Some (Malformed t')"
  then show "getCurrentUser s = Inr None"
    by (simp add: getCurrentUser_def getCurrentUser_try_def)
next
  assume "fh_user s = Some (Malformed t')"
  then show "getCurrentUser_try s = Inl SyntaxError"
    by (simp add: getCurrentUser_try_def)
next
  show "\<exists>c. readCart s = Inr c" by (rule readCart_returns)
next
  show "\<exists>u. getCurrentUser s = Inr u" by (rule getCurrentUser_returns)
qed

theorem reads_never_raise_witness:
  "fh_cart \<lparr>fh_cart = Some (Malformed (js ''{p1:'')), fh_token = None, fh_user = Some (Malformed (js ''oops''))\<rparr>
     = Some (Malformed (js ''{p1:'')) \<and>
   js ''{p1:'' \<noteq> [] \<and>
   fh_user \<lparr>fh_cart = Some (Malformed (js ''{p1:'')), fh_token = None, fh_user = Some (Malformed (js ''oops''))\<rparr>
     = Some (Malformed (js ''oops'')) \<and>
   readCart_try \<lparr>fh_cart = Some (Malformed (js ''{p1:'')), fh_token = None, fh_user = Some (Malformed (js ''oops''))\<rparr>
     = Inl SyntaxError \<and>
   readCart \<lparr>fh_cart = Some (Malformed (js ''{p1:'')), fh_token = None, fh_user = Some (Malformed (js ''oops''))\<rparr>
     = Inr [] \<and>
   getCurrentUser_try \<lparr>fh_cart = Some (Malformed (js ''{p1:'')), fh_token = None, fh_user = Some (Malformed (js ''oops''))\<rparr>
     = Inl SyntaxError \<and>
   getCurrentUser \<lparr>fh_cart = Some (Malformed (js ''{p1:'')), fh_token = None, fh_user = Some (Malformed (js ''oops''))\<rparr>
     = Inr None"
  using reads_never_raise [of "\<lparr>fh_cart = Some (Malformed (js ''{p1:'')), fh_token = None, fh_user = Some (Malformed (js ''oops''))\<rparr>"
      "js ''{p1:''" "js ''oops''"]
  by (simp add: js_def)

end
